theory Spec2Isabelle
  imports Complex_Main "HOL-Library.Sublist"
begin

section \<open>Strings as the platform gives them\<close>

text \<open>
  A JavaScript string is a sequence of code units; here it is a \<open>char list\<close>, so the
  model covers the code units below 256. The operations are the ones the sources call:
  \<open>trim\<close>, \<open>startsWith\<close>, \<open>endsWith\<close>, \<open>includes\<close>, \<open>lastIndexOf\<close>, \<open>substring\<close> and
  the two array reads \<open>split(sep)[0]\<close> and \<open>split(sep)[1]\<close>.
\<close>

definition dquote :: char where
  "dquote = CHR 0x22"

definition backslash :: char where
  "backslash = CHR 0x5C"

definition fence :: string where
  "fence = [CHR 0x60, CHR 0x60, CHR 0x60]"

definition fenceJson :: string where
  "fenceJson = fence @ ''json''"

text \<open>The white space and line terminators that \<open>String.prototype.trim\<close> removes
  (tab, line feed, vertical tab, form feed, carriage return, space, no-break space).\<close>

definition isTrimSpace :: "char \<Rightarrow> bool" where
  "isTrimSpace c = (c \<in> set [CHR 0x09, CHR 0x0A, CHR 0x0B, CHR 0x0C, CHR 0x0D, CHR 0x20, CHR 0xA0])"

definition trim :: "string \<Rightarrow> string" where
  "trim s = rev (dropWhile isTrimSpace (rev (dropWhile isTrimSpace s)))"

definition startsWith :: "string \<Rightarrow> string \<Rightarrow> bool" where
  "startsWith s p = (take (length p) s = p)"

definition endsWith :: "string \<Rightarrow> string \<Rightarrow> bool" where
  "endsWith s p = (length p \<le> length s \<and> drop (length s - length p) s = p)"

fun includesStr :: "string \<Rightarrow> string \<Rightarrow> bool" where
  "includesStr [] p = (p = [])"
| "includesStr (c # cs) p = (startsWith (c # cs) p \<or> includesStr cs p)"

text \<open>\<open>s.lastIndexOf(c)\<close> for a single character: the index of its last occurrence, or -1.\<close>

definition lastIndexOf :: "string \<Rightarrow> char \<Rightarrow> int" where
  "lastIndexOf s c =
     (if c \<in> set s then int (length s) - 1 - int (length (takeWhile (\<lambda>x. x \<noteq> c) (rev s)))
      else - 1)"

text \<open>\<open>s.substring(0, n)\<close>: a negative end counts as 0, an end past the string as its length.\<close>

definition substring0 :: "string \<Rightarrow> int \<Rightarrow> string" where
  "substring0 s n = take (nat n) s"

text \<open>\<open>s.split(sep)[0]\<close> for a non-empty separator: the text before the first occurrence
  of the separator, the whole text when there is none.\<close>

fun split0 :: "string \<Rightarrow> string \<Rightarrow> string" where
  "split0 sep [] = []"
| "split0 sep (c # cs) = (if startsWith (c # cs) sep then [] else c # split0 sep cs)"

text \<open>The text after the first occurrence of the separator, if there is one.\<close>

fun afterFirst :: "string \<Rightarrow> string \<Rightarrow> string option" where
  "afterFirst sep [] = None"
| "afterFirst sep (c # cs) =
     (if startsWith (c # cs) sep then Some (drop (length sep) (c # cs)) else afterFirst sep cs)"

text \<open>\<open>s.split(sep)[1]\<close> for a non-empty separator: \<open>undefined\<close> (here \<open>None\<close>) when the
  separator does not occur, else the text between its first and its second occurrence.\<close>

definition split1 :: "string \<Rightarrow> string \<Rightarrow> string option" where
  "split1 sep s = map_option (split0 sep) (afterFirst sep s)"

section \<open>The platform's JSON.parse\<close>

text \<open>
  \<open>JSON.parse\<close> is the platform's, not the repository's. It is modelled by a recursive
  descent parser for the JSON grammar (ECMA-404) that returns the syntax tree of the text;
  numbers and strings keep their lexemes. The fuel bounds the nesting of calls, and
  \<open>JSON_parse\<close> supplies more than any text can use (lemma \<open>JSON_parse_any_fuel\<close>).
\<close>

datatype json =
    JNull
  | JBool bool
  | JNumber string
  | JString string
  | JArray "json list"
  | JObject "(string \<times> json) list"

definition isJsonSpace :: "char \<Rightarrow> bool" where
  "isJsonSpace c = (c \<in> set [CHR 0x20, CHR 0x09, CHR 0x0A, CHR 0x0D])"

definition skipWs :: "string \<Rightarrow> string" where
  "skipWs s = dropWhile isJsonSpace s"

definition isDigit :: "char \<Rightarrow> bool" where
  "isDigit c = (c \<in> set ''0123456789'')"

definition isHexDigit :: "char \<Rightarrow> bool" where
  "isHexDigit c = (c \<in> set ''0123456789abcdefABCDEF'')"

definition isSimpleEscape :: "char \<Rightarrow> bool" where
  "isSimpleEscape c = (c \<in> set [dquote, backslash, CHR ''/'', CHR ''b'', CHR ''f'', CHR ''n'', CHR ''r'', CHR ''t''])"

text \<open>The body of a string literal, after its opening quote: the lexeme up to the closing
  quote and the text after it.\<close>

fun parseStringBody :: "string \<Rightarrow> string \<Rightarrow> (string \<times> string) option" where
  "parseStringBody acc [] = None"
| "parseStringBody acc [c] = (if c = dquote then Some (rev acc, []) else None)"
| "parseStringBody acc (c # e # cs) =
     (if c = dquote then Some (rev acc, e # cs)
      else if c = backslash then
        (if isSimpleEscape e then parseStringBody (e # c # acc) cs
         else if e = CHR ''u'' \<and> 4 \<le> length cs \<and> list_all isHexDigit (take 4 cs)
           then parseStringBody (rev (take 4 cs) @ e # c # acc) (drop 4 cs)
         else None)
      else if of_char c < (0x20 :: nat) then None
      else parseStringBody (c # acc) (e # cs))"

text \<open>A number: an optional minus, an integer part without leading zeros, an optional
  fraction, an optional exponent.\<close>

definition parseInt :: "string \<Rightarrow> (string \<times> string) option" where
  "parseInt s =
     (case s of
        [] \<Rightarrow> None
      | c # cs \<Rightarrow>
          if c = CHR ''0'' then Some ([c], cs)
          else if isDigit c then Some (takeWhile isDigit s, dropWhile isDigit s)
          else None)"

definition parseFrac :: "string \<Rightarrow> (string \<times> string) option" where
  "parseFrac s =
     (case s of
        [] \<Rightarrow> Some ([], [])
      | c # cs \<Rightarrow>
          if c = CHR ''.'' then
            (if takeWhile isDigit cs = [] then None
             else Some (c # takeWhile isDigit cs, dropWhile isDigit cs))
          else Some ([], s))"

definition parseExp :: "string \<Rightarrow> (string \<times> string) option" where
  "parseExp s =
     (case s of
        [] \<Rightarrow> Some ([], [])
      | c # cs \<Rightarrow>
          if c = CHR ''e'' \<or> c = CHR ''E'' then
            (let sign = (case cs of [] \<Rightarrow> [] | d # _ \<Rightarrow> if d = CHR ''+'' \<or> d = CHR ''-'' then [d] else []);
                 ds = drop (length sign) cs
             in if takeWhile isDigit ds = [] then None
                else Some (c # sign @ takeWhile isDigit ds, dropWhile isDigit ds))
          else Some ([], s))"

definition parseNumber :: "string \<Rightarrow> (json \<times> string) option" where
  "parseNumber s =
     (let minus = (case s of [] \<Rightarrow> [] | c # _ \<Rightarrow> if c = CHR ''-'' then [c] else [])
      in case parseInt (drop (length minus) s) of
           None \<Rightarrow> None
         | Some (i, r1) \<Rightarrow>
             (case parseFrac r1 of
                None \<Rightarrow> None
              | Some (f, r2) \<Rightarrow>
                  (case parseExp r2 of
                     None \<Rightarrow> None
                   | Some (e, r3) \<Rightarrow> Some (JNumber (minus @ i @ f @ e), r3))))"

fun parseValue :: "nat \<Rightarrow> string \<Rightarrow> (json \<times> string) option"
  and parseElements :: "nat \<Rightarrow> json list \<Rightarrow> string \<Rightarrow> (json \<times> string) option"
  and parseMembers :: "nat \<Rightarrow> (string \<times> json) list \<Rightarrow> string \<Rightarrow> (json \<times> string) option"
where
  "parseValue 0 s = None"
| "parseValue (Suc n) s =
     (case s of
        [] \<Rightarrow> None
      | c # cs \<Rightarrow>
          if c = CHR ''{'' then
            (case skipWs cs of
               [] \<Rightarrow> None
             | d # r \<Rightarrow> if d = CHR ''}'' then Some (JObject [], r) else parseMembers n [] (d # r))
          else if c = CHR ''['' then
            (case skipWs cs of
               [] \<Rightarrow> None
             | d # r \<Rightarrow> if d = CHR '']'' then Some (JArray [], r) else parseElements n [] (d # r))
          else if c = dquote then
            (case parseStringBody [] cs of None \<Rightarrow> None | Some (str, r) \<Rightarrow> Some (JString str, r))
          else if startsWith s ''true'' then Some (JBool True, drop 4 s)
          else if startsWith s ''false'' then Some (JBool False, drop 5 s)
          else if startsWith s ''null'' then Some (JNull, drop 4 s)
          else parseNumber s)"
| "parseElements 0 acc s = None"
| "parseElements (Suc n) acc s =
     (case parseValue n (skipWs s) of
        None \<Rightarrow> None
      | Some (v, r) \<Rightarrow>
          (case skipWs r of
             [] \<Rightarrow> None
           | d # r' \<Rightarrow>
               if d = CHR '','' then parseElements n (v # acc) r'
               else if d = CHR '']'' then Some (JArray (rev (v # acc)), r')
               else None))"
| "parseMembers 0 acc s = None"
| "parseMembers (Suc n) acc s =
     (case skipWs s of
        [] \<Rightarrow> None
      | q # r \<Rightarrow>
          if q \<noteq> dquote then None
          else
            (case parseStringBody [] r of
               None \<Rightarrow> None
             | Some (k, r1) \<Rightarrow>
                 (case skipWs r1 of
                    [] \<Rightarrow> None
                  | col # r2 \<Rightarrow>
                      if col \<noteq> CHR '':'' then None
                      else
                        (case parseValue n (skipWs r2) of
                           None \<Rightarrow> None
                         | Some (v, r3) \<Rightarrow>
                             (case skipWs r3 of
                                [] \<Rightarrow> None
                              | d # r4 \<Rightarrow>
                                  if d = CHR '','' then parseMembers n ((k, v) # acc) r4
                                  else if d = CHR ''}'' then Some (JObject (rev ((k, v) # acc)), r4)
                                  else None)))))"

definition JSON_parse :: "string \<Rightarrow> json option" where
  "JSON_parse s =
     (case parseValue (2 * length s + 2) (skipWs s) of
        None \<Rightarrow> None
      | Some (v, r) \<Rightarrow> if skipWs r = [] then Some v else None)"

section \<open>The JSON repair engine (utils)\<close>

text \<open>\<open>isValidJson\<close>: whether \<open>JSON.parse\<close> returns rather than throws.\<close>

definition isValidJson :: "string \<Rightarrow> bool" where
  "isValidJson str = (case JSON_parse str of Some _ \<Rightarrow> True | None \<Rightarrow> False)"

text \<open>The four variables of the character scan of \<open>repairTruncatedJson\<close>.\<close>

record scanState =
  braceCount :: int
  bracketCount :: int
  inString :: bool
  escapeNext :: bool

definition scanInit :: scanState where
  "scanInit = \<lparr>braceCount = 0, bracketCount = 0, inString = False, escapeNext = False\<rparr>"

text \<open>One iteration of the scanning loop, on the character \<open>c\<close>.\<close>

definition scanStep :: "char \<Rightarrow> scanState \<Rightarrow> scanState" where
  "scanStep c st =
     (if escapeNext st then st\<lparr>escapeNext := False\<rparr>
      else if c = backslash then st\<lparr>escapeNext := True\<rparr>
      else if c = dquote then st\<lparr>inString := \<not> inString st\<rparr>
      else if inString st then st
      else if c = CHR ''{'' then st\<lparr>braceCount := braceCount st + 1\<rparr>
      else if c = CHR ''}'' then st\<lparr>braceCount := braceCount st - 1\<rparr>
      else if c = CHR ''['' then st\<lparr>bracketCount := bracketCount st + 1\<rparr>
      else if c = CHR '']'' then st\<lparr>bracketCount := bracketCount st - 1\<rparr>
      else st)"

definition scan :: "string \<Rightarrow> scanState" where
  "scan s = fold scanStep s scanInit"

text \<open>The string fix of \<open>repairTruncatedJson\<close>, applied when the first scan ends inside a
  string.\<close>

definition fixString :: "string \<Rightarrow> string" where
  "fixString result =
     (let lastQuote = lastIndexOf result dquote
      in if lastQuote > 0 then
           (let beforeQuote = trim (substring0 result lastQuote)
            in if endsWith beforeQuote '':'' \<or> endsWith beforeQuote '','' \<or> endsWith beforeQuote ''[''
               then substring0 result lastQuote @ ''null''
               else substring0 result (lastQuote + 1))
         else result)"

text \<open>The two closing loops: one \<open>]\<close> for each count of open brackets, then one \<open>}\<close> for
  each count of open braces.\<close>

definition closers :: "scanState \<Rightarrow> string" where
  "closers st = replicate (nat (bracketCount st)) CHR '']'' @ replicate (nat (braceCount st)) CHR ''}''"

definition repairTruncatedJson :: "string \<Rightarrow> string" where
  "repairTruncatedJson jsonStr =
     (let result = (if inString (scan jsonStr) then fixString jsonStr else jsonStr)
      in result @ closers (scan result))"

text \<open>
  The scan in the specification's words, for comparison with the loop. The characters that
  count are those outside string literals: a backslash hides the character after it, an
  unhidden quote opens or closes a literal, and everything inside a literal is passed over.
  \<open>structural q s\<close> lists the characters of \<open>s\<close> that count, \<open>q\<close> saying whether \<open>s\<close> starts
  inside a literal; \<open>unterminated q s\<close> says whether \<open>s\<close> ends inside one.
\<close>

fun structural :: "bool \<Rightarrow> string \<Rightarrow> string" where
  "structural q [] = []"
| "structural q [c] = (if c = backslash \<or> c = dquote \<or> q then [] else [c])"
| "structural q (c # d # cs) =
     (if c = backslash then structural q cs
      else if c = dquote then structural (\<not> q) (d # cs)
      else if q then structural q (d # cs)
      else c # structural q (d # cs))"

fun unterminated :: "bool \<Rightarrow> string \<Rightarrow> bool" where
  "unterminated q [] = q"
| "unterminated q [c] = (if c = dquote then \<not> q else q)"
| "unterminated q (c # d # cs) =
     (if c = backslash then unterminated q cs
      else if c = dquote then unterminated (\<not> q) (d # cs)
      else unterminated q (d # cs))"

text \<open>The net number of open brackets or braces: the openers that count less the closers
  that count. It is negative when there are more closers.\<close>

definition netOpen :: "char \<Rightarrow> char \<Rightarrow> string \<Rightarrow> int" where
  "netOpen opening closing s =
     int (count_list (structural False s) opening) - int (count_list (structural False s) closing)"

text \<open>A nested document cut inside a string that is an array element.\<close>

definition truncatedNested :: string where
  "truncatedNested = ''{\"a\": {\"b\": [1]}, \"c\": [\"x''"

text \<open>Fence stripping, as the first lines of \<open>extractJsonFromText\<close> do it; \<open>??\<close> falls
  back to the text when the array read is \<open>undefined\<close>.\<close>

definition stripFence :: "string \<Rightarrow> string" where
  "stripFence text =
     (if includesStr text fenceJson then
        (case split1 fenceJson text of None \<Rightarrow> text | Some seg \<Rightarrow> split0 fence seg)
      else if includesStr text fence then
        (case split1 fence text of None \<Rightarrow> text | Some seg \<Rightarrow> split0 fence seg)
      else text)"

definition extractJsonFromText :: "string \<Rightarrow> string" where
  "extractJsonFromText text =
     (let jsonStr = trim (stripFence text)
      in if \<not> isValidJson jsonStr then repairTruncatedJson jsonStr else jsonStr)"

section \<open>Errors, retry classification and backoff (errors)\<close>

text \<open>
  The error classes of the repository, with the fields the code reads: \<open>AppError\<close>
  (message, code), \<open>ApiError\<close> (message, statusCode), \<open>NetworkError\<close> (message),
  \<open>ValidationError\<close> (message, field), \<open>StorageError\<close> (message, key). \<open>JsError\<close> stands
  for the platform's own errors, by name and message: \<open>Error\<close>, \<open>TypeError\<close> (a rejected
  \<open>fetch\<close>), \<open>SyntaxError\<close> (a failed \<open>JSON.parse\<close>).
\<close>

datatype error =
    AppError string string
  | ApiError string int
  | NetworkError string
  | ValidationError string "string option"
  | StorageError string "string option"
  | JsError string string

fun isRetryableError :: "error \<Rightarrow> bool" where
  "isRetryableError (NetworkError m) = True"
| "isRetryableError (ApiError m statusCode) = (statusCode \<in> set [429, 500, 502, 503])"
| "isRetryableError e = False"

text \<open>The kind of an error (its class) and its status code, for stating what the
  classification depends on.\<close>

datatype errorKind = AppKind | ApiKind | NetworkKind | ValidationKind | StorageKind | PlatformKind

fun kindOf :: "error \<Rightarrow> errorKind" where
  "kindOf (AppError m c) = AppKind"
| "kindOf (ApiError m statusCode) = ApiKind"
| "kindOf (NetworkError m) = NetworkKind"
| "kindOf (ValidationError m f) = ValidationKind"
| "kindOf (StorageError m k) = StorageKind"
| "kindOf (JsError n m) = PlatformKind"

fun statusOf :: "error \<Rightarrow> int option" where
  "statusOf (ApiError m statusCode) = Some statusCode"
| "statusOf e = None"

text \<open>
  A JavaScript number is a double: a finite value, one of the two infinities, or NaN (the
  sign of zero, which nothing here observes, is left out). What the platform computes on
  doubles, with IEEE rounding and overflow and with a \<open>Math.pow\<close> that the language leaves
  to the implementation, is a parameter of the model: \<open>mul\<close>, \<open>add\<close> and \<open>quot\<close> are the
  operators \<open>*\<close>, \<open>+\<close> and \<open>/\<close>, \<open>Math_min\<close> and \<open>Math_pow\<close> the library functions, and
  \<open>roundText x\<close> the text that a template string prints for \<open>Math.round(x)\<close>.
\<close>

datatype number = Finite real | PosInfinity | NegInfinity | NaN

record arithmetic =
  mul :: "number \<Rightarrow> number \<Rightarrow> number"
  add :: "number \<Rightarrow> number \<Rightarrow> number"
  quot :: "number \<Rightarrow> number \<Rightarrow> number"
  Math_min :: "number \<Rightarrow> number \<Rightarrow> number"
  Math_pow :: "number \<Rightarrow> number \<Rightarrow> number"
  roundText :: "number \<Rightarrow> string"

text \<open>
  The argument of \<open>calculateRetryDelay\<close> and \<open>CONFIG.RETRY\<close>, which has one more field.
  \<open>fp\<close> is the platform's arithmetic; \<open>attempt\<close> is the loop counter of the caller; \<open>rnd\<close>
  is the value that \<open>Math.random()\<close> returns in the call.
\<close>

record retryDelayConfig =
  INITIAL_DELAY_MS :: number
  MAX_DELAY_MS :: number
  BACKOFF_MULTIPLIER :: number

record retryConfig = retryDelayConfig +
  MAX_ATTEMPTS :: nat

definition calculateRetryDelay :: "arithmetic \<Rightarrow> nat \<Rightarrow> 'a retryDelayConfig_scheme \<Rightarrow> number \<Rightarrow> number" where
  "calculateRetryDelay fp attempt config rnd =
     (let delay = Math_min fp
                    (mul fp (INITIAL_DELAY_MS config)
                       (Math_pow fp (BACKOFF_MULTIPLIER config) (Finite (real attempt))))
                    (MAX_DELAY_MS config)
      in add fp delay (mul fp rnd (Finite 1000)))"

definition CONFIG_RETRY :: retryConfig where
  "CONFIG_RETRY =
     \<lparr>INITIAL_DELAY_MS = Finite 1000, MAX_DELAY_MS = Finite 10000, BACKOFF_MULTIPLIER = Finite 2,
      MAX_ATTEMPTS = 3\<rparr>"

text \<open>Integers in template strings (an attempt index, a status code) print in decimal.\<close>

definition digitChar :: "nat \<Rightarrow> char" where
  "digitChar d = ''0123456789'' ! d"

fun showNat :: "nat \<Rightarrow> string" where
  "showNat n = (if n < 10 then [digitChar n] else showNat (n div 10) @ [digitChar (n mod 10)])"

declare showNat.simps [simp del]

definition showInt :: "int \<Rightarrow> string" where
  "showInt i = (if i < 0 then CHR ''-'' # showNat (nat (- i)) else showNat (nat i))"

text \<open>The table \<open>ERROR_MESSAGES\<close>, read at a status code, and three of its named entries.\<close>

definition ERROR_MESSAGES :: "int \<Rightarrow> string option" where
  "ERROR_MESSAGES statusCode =
     (if statusCode = 400 then Some ''Invalid request. Please check your input and try again.''
      else if statusCode = 401 then Some ''Invalid API key. Please check your Gemini API key.''
      else if statusCode = 403 then Some ''Access denied. Your API key may not have the required permissions.''
      else if statusCode = 404 then Some ''API endpoint not found. The service may be temporarily unavailable.''
      else if statusCode = 429 then Some ''Rate limit exceeded. Please wait a moment before trying again.''
      else if statusCode = 500 then Some ''Server error. The AI service is experiencing issues.''
      else if statusCode = 502 then Some ''Bad gateway. The AI service is temporarily unavailable.''
      else if statusCode = 503 then Some ''Service unavailable. Please try again later.''
      else None)"

definition MSG_NETWORK_ERROR :: string where
  "MSG_NETWORK_ERROR = ''Network error. Please check your internet connection.''"

definition MSG_OFFLINE :: string where
  "MSG_OFFLINE = ''You appear to be offline. Please check your connection.''"

definition MSG_UNKNOWN :: string where
  "MSG_UNKNOWN = ''An unexpected error occurred. Please try again.''"

fun messageOf :: "error \<Rightarrow> string" where
  "messageOf (AppError m c) = m"
| "messageOf (ApiError m statusCode) = m"
| "messageOf (NetworkError m) = m"
| "messageOf (ValidationError m f) = m"
| "messageOf (StorageError m k) = m"
| "messageOf (JsError n m) = m"

fun nameOf :: "error \<Rightarrow> string" where
  "nameOf (AppError m c) = ''AppError''"
| "nameOf (ApiError m statusCode) = ''ApiError''"
| "nameOf (NetworkError m) = ''NetworkError''"
| "nameOf (ValidationError m f) = ''ValidationError''"
| "nameOf (StorageError m k) = ''StorageError''"
| "nameOf (JsError n m) = n"

text \<open>\<open>a || b\<close> on strings: the empty string is falsy.\<close>

definition orElse :: "string \<Rightarrow> string \<Rightarrow> string" where
  "orElse a b = (if a = [] then b else a)"

text \<open>\<open>getErrorMessage\<close> of the TypeScript module. \<open>onLine\<close> is \<open>navigator.onLine\<close> at the
  time of the call; \<open>None\<close> is \<open>null\<close>.\<close>

fun getErrorMessage :: "error option \<Rightarrow> bool \<Rightarrow> string" where
  "getErrorMessage (Some (ApiError m statusCode)) onLine =
     (case ERROR_MESSAGES statusCode of Some msg \<Rightarrow> msg | None \<Rightarrow> MSG_UNKNOWN)"
| "getErrorMessage (Some (NetworkError m)) onLine = (if \<not> onLine then MSG_OFFLINE else MSG_NETWORK_ERROR)"
| "getErrorMessage (Some (ValidationError m f)) onLine = orElse m MSG_UNKNOWN"
| "getErrorMessage (Some e) onLine = orElse (messageOf e) MSG_UNKNOWN"
| "getErrorMessage None onLine = MSG_UNKNOWN"

section \<open>The AI orchestrator (api)\<close>

text \<open>
  What the orchestrator exchanges with its surroundings. A response part has an optional
  text; a candidate may lack its parts; the response may lack its candidates and, when the
  request failed, may carry the service's message (\<open>error.message\<close>).
\<close>

record imageData =
  base64 :: string
  mimeType :: string
  fileName :: string

record geminiCandidate =
  contentParts :: "string option list option"
  finishReason :: "string option"

record geminiResponse =
  candidates :: "geminiCandidate list option"
  serviceMessage :: "string option"

text \<open>What one call of \<open>fetch\<close> does: it rejects with an error, or it resolves with a status
  code and a body on which \<open>response.json()\<close> either throws or returns an object.\<close>

datatype fetchOutcome =
    FetchRejected error
  | Response int "error + geminiResponse"

definition responseOk :: "int \<Rightarrow> bool" where
  "responseOk status = (200 \<le> status \<and> status \<le> 299)"

text \<open>
  The surroundings of one call of \<open>parseWithAI\<close>: the stored credential and image, and for
  the attempt with index \<open>k\<close> the value of \<open>navigator.onLine\<close>, the outcome of \<open>fetch\<close> and the
  draw of \<open>Math.random()\<close>, and the platform's arithmetic. \<open>parseErrorMessage\<close> is the message of the \<open>SyntaxError\<close> that
  \<open>JSON.parse\<close> throws on a text; \<open>onlineAtReport\<close> is \<open>navigator.onLine\<close> when the final
  message is chosen, \<open>onlineAfterFailure k\<close> when the JavaScript module words a network error.
\<close>

record env =
  apiKey :: "string option"
  currentImage :: "imageData option"
  online :: "nat \<Rightarrow> bool"
  transport :: "nat \<Rightarrow> fetchOutcome"
  random :: "nat \<Rightarrow> number"
  arith :: arithmetic
  parseErrorMessage :: "string \<Rightarrow> string"
  onlineAfterFailure :: "nat \<Rightarrow> bool"
  onlineAtReport :: bool

text \<open>
  What a call does that its caller or its surroundings can observe, in order: the three
  callbacks, each submission to the transport and each suspension. (\<open>logError\<close> writes to the
  console only and is left out.) The promise of an \<open>async\<close> function resolves with the
  returned value and rejects with an error that escapes the body.
\<close>

datatype statusType = Loading | Success | ErrorStatus

datatype event =
    OnStatus string statusType
  | Fetch
  | Sleep number
  | OnSuccess json
  | OnError "error option"

datatype 'a promise = Resolved 'a | Rejected error

text \<open>A value of type \<open>string | null\<close> is falsy when it is \<open>null\<close> or empty.\<close>

definition falsy :: "string option \<Rightarrow> bool" where
  "falsy t = (t = None \<or> t = Some [])"

text \<open>The three loops over the parts of the first candidate.\<close>

fun strategy1 :: "string option list \<Rightarrow> string option" where
  "strategy1 [] = None"
| "strategy1 (part # rest) =
     (case part of
        None \<Rightarrow> strategy1 rest
      | Some text \<Rightarrow>
          if text \<noteq> [] \<and> (startsWith (trim text) ''{'' \<or> startsWith (trim text) fenceJson)
          then Some text else strategy1 rest)"

fun strategy2 :: "string option list \<Rightarrow> string option" where
  "strategy2 [] = None"
| "strategy2 (part # rest) =
     (case part of
        None \<Rightarrow> strategy2 rest
      | Some text \<Rightarrow>
          if text \<noteq> [] \<and> includesStr text ''{'' \<and> includesStr text ''}''
          then Some text else strategy2 rest)"

text \<open>The third loop runs from the last index down to 0: its argument is the reversed list
  of parts.\<close>

fun strategy3 :: "string option list \<Rightarrow> string option" where
  "strategy3 [] = None"
| "strategy3 (part # earlier) =
     (case part of
        None \<Rightarrow> strategy3 earlier
      | Some text \<Rightarrow> if trim text \<noteq> [] then Some text else strategy3 earlier)"

definition selectText :: "geminiResponse \<Rightarrow> string option" where
  "selectText data =
     (case candidates data of
        None \<Rightarrow> None
      | Some [] \<Rightarrow> None
      | Some (candidate # _) \<Rightarrow>
          (case contentParts candidate of
             None \<Rightarrow> None
           | Some responseParts \<Rightarrow>
               (let text1 = strategy1 responseParts;
                    text2 = (if falsy text1 then strategy2 responseParts else text1);
                    text3 = (if falsy text2 then strategy3 (rev responseParts) else text2)
                in text3)))"

definition statusMessage :: "bool \<Rightarrow> nat \<Rightarrow> string" where
  "statusMessage hasImage attempt =
     (if hasImage then
        (if attempt = 0 then ''Parsing image and notes with AI... This may take a few seconds.''
         else ''Retrying... (attempt '' @ showNat (attempt + 1) @ ''/'' @ showNat (MAX_ATTEMPTS CONFIG_RETRY) @ '')'')
      else
        (if attempt = 0 then ''Parsing with AI... This may take a few seconds.''
         else ''Retrying... (attempt '' @ showNat (attempt + 1) @ ''/'' @ showNat (MAX_ATTEMPTS CONFIG_RETRY) @ '')''))"

definition EMPTY_RESPONSE :: error where
  "EMPTY_RESPONSE = JsError ''Error''
     ''Empty response from AI. The model returned no text content. Try using Gemini 2.0 Flash.''"

text \<open>The error made from a response that is not ok.\<close>

definition apiErrorOf :: "int \<Rightarrow> error + geminiResponse \<Rightarrow> error" where
  "apiErrorOf status body =
     ApiError
       (orElse (case body of Inl e \<Rightarrow> [] | Inr details \<Rightarrow> (case serviceMessage details of None \<Rightarrow> [] | Some m \<Rightarrow> m))
          (''API request failed: '' @ showInt status))
       status"

text \<open>The body of the \<open>try\<close> block for one attempt: the error it throws or the value it
  returns, and what it did up to there.\<close>

definition tryAttempt :: "env \<Rightarrow> bool \<Rightarrow> nat \<Rightarrow> (error + json) \<times> event list" where
  "tryAttempt env hasImage attempt =
     (let started = [OnStatus (statusMessage hasImage attempt) Loading] in
      if \<not> online env attempt then (Inl (NetworkError ''You appear to be offline.''), started)
      else
        (case transport env attempt of
           FetchRejected e \<Rightarrow> (Inl e, started @ [Fetch])
         | Response status body \<Rightarrow>
             if \<not> responseOk status then (Inl (apiErrorOf status body), started @ [Fetch])
             else
               (case body of
                  Inl e \<Rightarrow> (Inl e, started @ [Fetch])
                | Inr data \<Rightarrow>
                    (case selectText data of
                       None \<Rightarrow> (Inl EMPTY_RESPONSE, started @ [Fetch])
                     | Some text \<Rightarrow>
                         if text = [] then (Inl EMPTY_RESPONSE, started @ [Fetch])
                         else
                           (case JSON_parse (extractJsonFromText text) of
                              None \<Rightarrow>
                                (Inl (JsError ''SyntaxError'' (parseErrorMessage env (extractJsonFromText text))),
                                 started @ [Fetch])
                            | Some parsed \<Rightarrow>
                                (Inr parsed,
                                 started @ [Fetch,
                                   OnStatus ''Successfully parsed and populated form fields!'' Success,
                                   OnSuccess parsed]))))))"

text \<open>What follows the loop: the final notifications and the return of \<open>null\<close>.\<close>

definition reportFailure :: "env \<Rightarrow> error option \<Rightarrow> json option \<times> event list" where
  "reportFailure env lastError =
     (None, [OnStatus (getErrorMessage lastError (onlineAtReport env)) ErrorStatus, OnError lastError])"

definition after :: "event list \<Rightarrow> 'a \<times> event list \<Rightarrow> 'a \<times> event list" where
  "after done r = (fst r, done @ snd r)"

text \<open>The retry loop with the code after it, entered at the loop test with the current
  values of \<open>attempt\<close> and \<open>lastError\<close>.\<close>

function retryLoop :: "env \<Rightarrow> bool \<Rightarrow> nat \<Rightarrow> error option \<Rightarrow> json option \<times> event list" where
  "retryLoop env hasImage attempt lastError =
     (if attempt < MAX_ATTEMPTS CONFIG_RETRY then
        (case tryAttempt env hasImage attempt of
           (Inr parsed, done) \<Rightarrow> (Some parsed, done)
         | (Inl e, done) \<Rightarrow>
             if isRetryableError e \<and> attempt < MAX_ATTEMPTS CONFIG_RETRY - 1 then
               after
                 (done @
                  [OnStatus (''Rate limited. Retrying in ''
                      @ roundText (arith env) (quot (arith env) (calculateRetryDelay (arith env) attempt CONFIG_RETRY (random env attempt)) (Finite 1000))
                      @ '' seconds...'') Loading,
                   Sleep (calculateRetryDelay (arith env) attempt CONFIG_RETRY (random env attempt))])
                 (retryLoop env hasImage (attempt + 1) (Some e))
             else after done (reportFailure env (Some e)))
      else reportFailure env lastError)"
  by pat_completeness auto
termination
  by (relation "measure (\<lambda>(env, hasImage, attempt, lastError). MAX_ATTEMPTS CONFIG_RETRY - attempt)") auto

declare retryLoop.simps [simp del]

definition parseWithAI :: "env \<Rightarrow> string \<Rightarrow> json option promise \<times> event list" where
  "parseWithAI env inputText =
     (let hasImage = (currentImage env \<noteq> None);
          hasText = (trim inputText \<noteq> [])
      in if falsy (apiKey env) then
           (Resolved None, [OnStatus ''Please enter your Gemini API key first.'' ErrorStatus])
         else if \<not> hasText \<and> \<not> hasImage then
           (Resolved None, [OnStatus ''Please enter some notes or upload an image to parse.'' ErrorStatus])
         else
           (case retryLoop env hasImage 0 None of (result, done) \<Rightarrow> (Resolved result, done)))"

section \<open>The JavaScript modules (js)\<close>

text \<open>
  The repository holds a second, JavaScript implementation of the orchestrator. Its
  \<open>isRetryableError\<close> and \<open>calculateRetryDelay\<close> have the bodies of the TypeScript ones and
  are not repeated. Its \<open>extractJsonFromText\<close> strips the fences and trims, without the
  validity check and the repair; reading \<open>split(...)[1]\<close> when it is undefined throws.
\<close>

definition extractJsonFromTextJs :: "string \<Rightarrow> error + string" where
  "extractJsonFromTextJs text =
     (if includesStr text fenceJson then
        (case split1 fenceJson text of
           None \<Rightarrow> Inl (JsError ''TypeError'' ''Cannot read properties of undefined'')
         | Some seg \<Rightarrow> Inr (trim (split0 fence seg)))
      else if includesStr text fence then
        (case split1 fence text of
           None \<Rightarrow> Inl (JsError ''TypeError'' ''Cannot read properties of undefined'')
         | Some seg \<Rightarrow> Inr (trim (split0 fence seg)))
      else Inr (trim text))"

definition validateInputs :: "string option \<Rightarrow> string \<Rightarrow> error option" where
  "validateInputs key inputText =
     (if falsy key then Some (ValidationError ''Please enter your Gemini API key first.'' (Some ''apiKey''))
      else if inputText = [] \<or> trim inputText = [] then
        Some (ValidationError ''Please enter some notes to parse.'' (Some ''inputText''))
      else None)"

text \<open>\<open>toLowerCase\<close> on the code units below 256.\<close>

definition toLowerChar :: "char \<Rightarrow> char" where
  "toLowerChar c =
     (let n = (of_char c :: nat)
      in if (65 \<le> n \<and> n \<le> 90) \<or> (192 \<le> n \<and> n \<le> 222 \<and> n \<noteq> 215) then char_of (n + 32) else c)"

definition toLowerCase :: "string \<Rightarrow> string" where
  "toLowerCase s = map toLowerChar s"

definition getSpecificNetworkError :: "error \<Rightarrow> bool \<Rightarrow> string" where
  "getSpecificNetworkError e onLine =
     (let message = toLowerCase (messageOf e) in
      if includesStr message ''failed to fetch'' \<or> includesStr message ''networkerror'' then
        (if \<not> onLine then ''Connection lost. Please check your internet connection.''
         else ''Unable to reach the AI service. The server may be down or blocked.'')
      else if includesStr message ''dns'' \<or> includesStr message ''getaddrinfo''
              \<or> includesStr message ''nodename nor servname'' then
        ''DNS lookup failed. Please check your internet connection.''
      else if includesStr message ''timeout'' \<or> includesStr message ''timed out'' then
        ''Connection timed out. The server took too long to respond.''
      else if includesStr message ''ssl'' \<or> includesStr message ''certificate'' \<or> includesStr message ''cert'' then
        ''Secure connection failed. There may be a network security issue.''
      else if includesStr message ''econnreset'' \<or> includesStr message ''connection reset'' then
        ''Connection was reset. Please try again.''
      else if includesStr message ''aborted'' \<or> includesStr message ''abort'' then
        ''Request was aborted. Please try again.''
      else if includesStr message ''cors'' \<or> includesStr message ''cross-origin'' then
        ''Cross-origin request blocked. This may be a configuration issue.''
      else if \<not> onLine then ''Connection lost. Please check your internet connection.''
      else ''Network request failed. Please check your connection and try again.'')"

text \<open>The \<open>catch\<close> block of \<open>makeApiRequest\<close>: what it throws for a caught error.\<close>

definition rethrow :: "error \<Rightarrow> bool \<Rightarrow> error" where
  "rethrow e onLine =
     (if kindOf e = ApiKind then e
      else if nameOf e = ''TypeError'' \<or> includesStr (messageOf e) ''fetch'' then
        NetworkError (getSpecificNetworkError e onLine)
      else e)"

definition apiErrorOfJs :: "int \<Rightarrow> error + geminiResponse \<Rightarrow> error" where
  "apiErrorOfJs status body =
     ApiError
       (orElse (case body of Inl e \<Rightarrow> [] | Inr details \<Rightarrow> (case serviceMessage details of None \<Rightarrow> [] | Some m \<Rightarrow> m))
          (''API request failed with status '' @ showInt status))
       status"

definition makeApiRequest :: "env \<Rightarrow> nat \<Rightarrow> (error + geminiResponse) \<times> event list" where
  "makeApiRequest env attempt =
     (if \<not> online env attempt then
        (Inl (NetworkError ''Connection lost. Please check your internet connection.''), [])
      else
        (case transport env attempt of
           FetchRejected e \<Rightarrow> (Inl (rethrow e (onlineAfterFailure env attempt)), [Fetch])
         | Response status body \<Rightarrow>
             if \<not> responseOk status then
               (Inl (rethrow (apiErrorOfJs status body) (onlineAfterFailure env attempt)), [Fetch])
             else
               (case body of
                  Inl e \<Rightarrow> (Inl (rethrow e (onlineAfterFailure env attempt)), [Fetch])
                | Inr data \<Rightarrow> (Inr data, [Fetch]))))"

text \<open>\<open>response?.candidates?.[0]?.content?.parts?.[0]?.text\<close>\<close>

definition firstPartText :: "geminiResponse \<Rightarrow> string option" where
  "firstPartText response =
     (case candidates response of
        None \<Rightarrow> None
      | Some [] \<Rightarrow> None
      | Some (candidate # _) \<Rightarrow>
          (case contentParts candidate of
             None \<Rightarrow> None
           | Some [] \<Rightarrow> None
           | Some (part # _) \<Rightarrow> part))"

definition parseApiResponse :: "geminiResponse \<Rightarrow> error + json" where
  "parseApiResponse response =
     (if falsy (firstPartText response) then Inl (JsError ''Error'' ''Empty response from AI. Please try again.'')
      else
        (case extractJsonFromTextJs (the (firstPartText response)) of
           Inl e \<Rightarrow> Inl e
         | Inr jsonStr \<Rightarrow>
             (case JSON_parse jsonStr of
                None \<Rightarrow> Inl (JsError ''Error'' ''Failed to parse AI response. The response was not valid JSON.'')
              | Some parsed \<Rightarrow> Inr parsed)))"

text \<open>The table \<open>ERROR_MESSAGES\<close> of the JavaScript module, by property key.\<close>

definition ERROR_MESSAGES_JS :: "(string \<times> string) list" where
  "ERROR_MESSAGES_JS =
     [(''400'', ''Invalid request. Please check your input and try again.''),
      (''401'', ''Invalid API key. Please check your Gemini API key.''),
      (''403'', ''Access denied. Your API key may not have the required permissions.''),
      (''404'', ''API endpoint not found. The service may be temporarily unavailable.''),
      (''429'', ''Rate limit exceeded. Please wait a moment before trying again.''),
      (''500'', ''Server error. The AI service is experiencing issues.''),
      (''502'', ''Bad gateway. The AI service is temporarily unavailable.''),
      (''503'', ''Service unavailable. Please try again later.''),
      (''NETWORK_ERROR'', ''Network error. Please check your internet connection.''),
      (''TIMEOUT'', ''Request timed out. Please try again.''),
      (''OFFLINE'', ''You appear to be offline. Please check your connection.''),
      (''EMPTY_INPUT'', ''Please enter some notes to parse.''),
      (''NO_API_KEY'', ''Please enter your Gemini API key first.''),
      (''INVALID_JSON'', ''Failed to parse AI response. Please try again.''),
      (''STORAGE_FULL'', ''Browser storage is full. Please clear some data.''),
      (''STORAGE_UNAVAILABLE'', ''Browser storage is unavailable.''),
      (''VOICE_NOT_SUPPORTED'', ''Voice recognition is not supported in this browser. Try Chrome.''),
      (''VOICE_NO_PERMISSION'', ''Microphone permission denied. Please allow microphone access.''),
      (''VOICE_NETWORK'', ''Voice recognition requires an internet connection.''),
      (''UNKNOWN'', ''An unexpected error occurred. Please try again.'')]"

text \<open>\<open>getErrorMessage\<close> of the JavaScript module, on the error classes. (The test
  \<open>error.code in ERROR_MESSAGES\<close> is taken on the table's own keys.)\<close>

fun getErrorMessageJs :: "error \<Rightarrow> bool \<Rightarrow> string" where
  "getErrorMessageJs (ApiError m statusCode) onLine =
     (case map_of ERROR_MESSAGES_JS (showInt statusCode) of
        Some found \<Rightarrow> found
      | None \<Rightarrow> if m \<noteq> [] \<and> \<not> includesStr m ''API request failed'' then m else MSG_UNKNOWN)"
| "getErrorMessageJs (NetworkError m) onLine =
     (if m \<noteq> [] \<and> m \<noteq> ''Network error'' then m
      else if \<not> onLine then MSG_OFFLINE else MSG_NETWORK_ERROR)"
| "getErrorMessageJs (ValidationError m f) onLine = orElse m MSG_UNKNOWN"
| "getErrorMessageJs (StorageError m k) onLine =
     (if includesStr m ''quota'' then ''Browser storage is full. Please clear some data.''
      else ''Browser storage is unavailable.'')"
| "getErrorMessageJs (AppError m c) onLine =
     (case map_of ERROR_MESSAGES_JS c of Some msg \<Rightarrow> msg | None \<Rightarrow> orElse m MSG_UNKNOWN)"
| "getErrorMessageJs (JsError n m) onLine = orElse m MSG_UNKNOWN"

text \<open>The body of the \<open>try\<close> block of the JavaScript \<open>parseWithAI\<close> for one attempt.\<close>

definition tryAttemptJs :: "env \<Rightarrow> nat \<Rightarrow> (error + json) \<times> event list" where
  "tryAttemptJs env attempt =
     (let started =
            [OnStatus (if attempt = 0 then ''Sending to AI...''
                       else ''Retrying... (attempt '' @ showNat (attempt + 1) @ ''/''
                            @ showNat (MAX_ATTEMPTS CONFIG_RETRY) @ '')'') Loading]
      in case makeApiRequest env attempt of
           (Inl e, sent) \<Rightarrow> (Inl e, started @ sent)
         | (Inr response, sent) \<Rightarrow>
             (case parseApiResponse response of
                Inl e \<Rightarrow> (Inl e, started @ sent @ [OnStatus ''Parsing response...'' Loading])
              | Inr parsed \<Rightarrow>
                  (Inr parsed,
                   started @ sent @
                   [OnStatus ''Parsing response...'' Loading,
                    OnStatus ''Populating form...'' Loading,
                    OnSuccess parsed,
                    OnStatus ''Done!'' Success])))"

definition reportFailureJs :: "env \<Rightarrow> error \<Rightarrow> json option \<times> event list" where
  "reportFailureJs env lastError =
     (None, [OnStatus (getErrorMessageJs lastError (onlineAtReport env)) ErrorStatus, OnError (Some lastError)])"

text \<open>The retry loop of the JavaScript \<open>parseWithAI\<close> with the code after it. After a loop
  that made no attempt \<open>lastError\<close> is \<open>null\<close>, and reading a property of it in
  \<open>getErrorMessage\<close> throws.\<close>

function retryLoopJs :: "env \<Rightarrow> nat \<Rightarrow> error option \<Rightarrow> json option promise \<times> event list" where
  "retryLoopJs env attempt lastError =
     (if attempt < MAX_ATTEMPTS CONFIG_RETRY then
        (case tryAttemptJs env attempt of
           (Inr parsed, done) \<Rightarrow> (Resolved (Some parsed), done)
         | (Inl e, done) \<Rightarrow>
             if isRetryableError e \<and> attempt < MAX_ATTEMPTS CONFIG_RETRY - 1 then
               after
                 (done @
                  [OnStatus ((if kindOf e = NetworkKind then ''Connection issue'' else ''Rate limited'')
                      @ ''. Retrying in ''
                      @ roundText (arith env) (quot (arith env) (calculateRetryDelay (arith env) attempt CONFIG_RETRY (random env attempt)) (Finite 1000))
                      @ '' seconds...'') Loading,
                   Sleep (calculateRetryDelay (arith env) attempt CONFIG_RETRY (random env attempt))])
                 (retryLoopJs env (attempt + 1) (Some e))
             else
               (case reportFailureJs env e of (result, reported) \<Rightarrow> (Resolved result, done @ reported)))
      else
        (case lastError of
           None \<Rightarrow> (Rejected (JsError ''TypeError'' ''Cannot read properties of null''), [])
         | Some e \<Rightarrow> (case reportFailureJs env e of (result, reported) \<Rightarrow> (Resolved result, reported))))"
  by pat_completeness auto
termination
  by (relation "measure (\<lambda>(env, attempt, lastError). MAX_ATTEMPTS CONFIG_RETRY - attempt)") auto

declare retryLoopJs.simps [simp del]

definition parseWithAIJs :: "env \<Rightarrow> string \<Rightarrow> json option promise \<times> event list" where
  "parseWithAIJs env inputText =
     (case validateInputs (apiKey env) inputText of
        Some e \<Rightarrow> (Resolved None, [OnStatus (messageOf e) ErrorStatus, OnError (Some e)])
      | None \<Rightarrow> retryLoopJs env 0 None)"

section \<open>Observations and example surroundings\<close>

text \<open>Views of a list of events: without the status notifications, and the number of
  submissions to the transport.\<close>

fun isStatus :: "event \<Rightarrow> bool" where
  "isStatus (OnStatus m t) = True"
| "isStatus e = False"

fun isOnError :: "event \<Rightarrow> bool" where
  "isOnError (OnError e) = True"
| "isOnError e = False"

definition effects :: "event list \<Rightarrow> event list" where
  "effects evs = filter (\<lambda>e. \<not> isStatus e) evs"

definition submissions :: "event list \<Rightarrow> nat" where
  "submissions evs = length (filter (\<lambda>e. e = Fetch) evs)"

text \<open>
  For the examples, an arithmetic that computes exactly on finite numbers and gives NaN
  elsewhere. On the numbers of the examples (0, 1, 2, 1/2, 1000 and their products and
  sums) the arithmetic of doubles is exact as well.
\<close>

fun exactMul :: "number \<Rightarrow> number \<Rightarrow> number" where
  "exactMul (Finite x) (Finite y) = Finite (x * y)"
| "exactMul a b = NaN"

fun exactAdd :: "number \<Rightarrow> number \<Rightarrow> number" where
  "exactAdd (Finite x) (Finite y) = Finite (x + y)"
| "exactAdd a b = NaN"

fun exactQuot :: "number \<Rightarrow> number \<Rightarrow> number" where
  "exactQuot (Finite x) (Finite y) = (if y = 0 then NaN else Finite (x / y))"
| "exactQuot a b = NaN"

fun exactMin :: "number \<Rightarrow> number \<Rightarrow> number" where
  "exactMin (Finite x) (Finite y) = Finite (min x y)"
| "exactMin a b = NaN"

fun exactPow :: "number \<Rightarrow> number \<Rightarrow> number" where
  "exactPow (Finite x) (Finite y) = (if 0 \<le> y \<and> of_int \<lfloor>y\<rfloor> = y then Finite (x ^ nat \<lfloor>y\<rfloor>) else NaN)"
| "exactPow a b = NaN"

text \<open>Rounding to the nearest integer, a half upwards.\<close>

definition mathRound :: "real \<Rightarrow> int" where
  "mathRound x = \<lfloor>x + 1 / 2\<rfloor>"

fun exactRoundText :: "number \<Rightarrow> string" where
  "exactRoundText (Finite x) = showInt (mathRound x)"
| "exactRoundText a = ''NaN''"

definition exactArith :: arithmetic where
  "exactArith =
     \<lparr>mul = exactMul, add = exactAdd, quot = exactQuot, Math_min = exactMin, Math_pow = exactPow,
      roundText = exactRoundText\<rparr>"

text \<open>A transport that answers every submission with status 500, and surroundings with a
  credential, no image, the host online and every draw of \<open>Math.random()\<close> equal to 1/2.\<close>

definition failing500 :: "nat \<Rightarrow> fetchOutcome" where
  "failing500 k = Response 500 (Inr \<lparr>candidates = None, serviceMessage = None\<rparr>)"

definition envFailing500 :: env where
  "envFailing500 =
     \<lparr>apiKey = Some ''key'', currentImage = None, online = (\<lambda>k. True), transport = failing500,
      random = (\<lambda>k. Finite (1 / 2)), arith = exactArith,
      parseErrorMessage = (\<lambda>t. ''Unexpected end of JSON input''),
      onlineAfterFailure = (\<lambda>k. True), onlineAtReport = True\<rparr>"

text \<open>The same, with the host offline at the first attempt only.\<close>

definition envOfflineFirst :: env where
  "envOfflineFirst = envFailing500\<lparr>online := (\<lambda>k. k \<noteq> 0)\<rparr>"

text \<open>
  The selection of the payload text in the words of the specification: the first part that
  looks like JSON, else the first part that contains both braces, else the last part with
  text.
\<close>

definition looksLikeJson :: "string option \<Rightarrow> bool" where
  "looksLikeJson part =
     (case part of None \<Rightarrow> False
      | Some text \<Rightarrow> startsWith (trim text) ''{'' \<or> startsWith (trim text) fenceJson)"

definition containsObject :: "string option \<Rightarrow> bool" where
  "containsObject part =
     (case part of None \<Rightarrow> False | Some text \<Rightarrow> includesStr text ''{'' \<and> includesStr text ''}'')"

definition hasText :: "string option \<Rightarrow> bool" where
  "hasText part = (case part of None \<Rightarrow> False | Some text \<Rightarrow> trim text \<noteq> [])"

definition selectSpec :: "string option list \<Rightarrow> string option" where
  "selectSpec ps =
     (case find looksLikeJson ps of
        Some part \<Rightarrow> part
      | None \<Rightarrow>
          (case find containsObject ps of
             Some part \<Rightarrow> part
           | None \<Rightarrow> (case filter hasText ps of [] \<Rightarrow> None | p # rest \<Rightarrow> last (p # rest))))"

text \<open>The parts of the first candidate of a response, if it has them.\<close>

definition firstCandidateParts :: "geminiResponse \<Rightarrow> string option list option" where
  "firstCandidateParts data =
     (case candidates data of None \<Rightarrow> None | Some [] \<Rightarrow> None | Some (c # _) \<Rightarrow> contentParts c)"

text \<open>A response whose first candidate has a part of prose and then a part of JSON.\<close>

definition twoParts :: geminiResponse where
  "twoParts = \<lparr>candidates = Some [\<lparr>contentParts = Some [Some ''Here is the result:'', Some '' {\"a\": 1}''],
      finishReason = Some ''STOP''\<rparr>], serviceMessage = None\<rparr>"

definition envTwoParts :: env where
  "envTwoParts = envFailing500\<lparr>transport := (\<lambda>k. Response 200 (Inr twoParts))\<rparr>"

text \<open>Whether the outcome of an attempt is a failure that \<open>isRetryableError\<close> accepts.\<close>

fun retryableFailure :: "error + json \<Rightarrow> bool" where
  "retryableFailure (Inl e) = isRetryableError e"
| "retryableFailure (Inr parsed) = False"

text \<open>Surroundings with no credential, and surroundings whose transport answers every
  submission with status 401 and the service's message.\<close>

definition envNoKey :: env where
  "envNoKey = envFailing500\<lparr>apiKey := None\<rparr>"

definition unauthorized :: "nat \<Rightarrow> fetchOutcome" where
  "unauthorized k = Response 401 (Inr \<lparr>candidates = None, serviceMessage = Some ''API key not valid''\<rparr>)"

definition envUnauthorized :: env where
  "envUnauthorized = envFailing500\<lparr>transport := unauthorized\<rparr>"

text \<open>
  The error with which \<open>fetch\<close> rejects when the request cannot be sent (no route to the
  host, a refused connection, a blocked request): a \<open>TypeError\<close>. Surroundings in which
  every submission is rejected so, and the \<open>NetworkError\<close> that \<open>makeApiRequest\<close> of the
  JavaScript module makes from this rejection while the host is online.
\<close>

definition fetchFailure :: error where
  "fetchFailure = JsError ''TypeError'' ''Failed to fetch''"

definition envFetchRejects :: env where
  "envFetchRejects = envFailing500\<lparr>transport := (\<lambda>k. FetchRejected fetchFailure)\<rparr>"

definition unreachable :: error where
  "unreachable = NetworkError ''Unable to reach the AI service. The server may be down or blocked.''"

section \<open>The voice recognition manager (voice)\<close>

text \<open>
  The fields of \<open>VoiceRecognitionManager\<close>: the transport handle (\<open>recognition\<close>, \<open>null\<close>
  until \<open>init\<close> creates it), the flag \<open>isRecording\<close> (the session is Active when it is set,
  Idle otherwise) and the language. The callbacks belong to the caller; a call of one is
  recorded as an action, as are the calls of the transport's \<open>start\<close> and \<open>stop\<close> and the
  writes of \<open>isRecording\<close>, in the order of the code. The localized texts are given by
  what they say: the text for a missing platform capability, the TypeScript text that ends
  with the platform's error kind, and the JavaScript table entry for an error kind; each in
  Chinese when the flag is set, in English otherwise.
\<close>

record recognitionHandle =
  continuous :: bool
  interimResults :: bool
  lang :: string

record manager =
  recognition :: "recognitionHandle option"
  isRecording :: bool
  language :: string

datatype voiceMessage =
    NotSupportedText bool
  | VoiceErrorText bool string
  | VoiceTableText bool string

datatype voiceAction =
    SetIsRecording bool
  | TransportStart
  | TransportStop
  | CallOnStart
  | CallOnEnd
  | CallOnError voiceMessage
  | CallOnResult string
  | CallOnInterim string

definition newManager :: manager where
  "newManager = \<lparr>recognition = None, isRecording = False, language = ''zh-TW''\<rparr>"

definition isChinese :: "manager \<Rightarrow> bool" where
  "isChinese m = (language m = ''zh-TW'')"

text \<open>\<open>init\<close>: \<open>supported\<close> says whether the platform offers speech recognition.\<close>

definition init :: "manager \<Rightarrow> bool \<Rightarrow> bool \<times> manager" where
  "init m supported =
     (if \<not> supported then (False, m)
      else (True, m\<lparr>recognition := Some \<lparr>continuous = True, interimResults = True, lang = language m\<rparr>\<rparr>))"

definition setLanguage :: "manager \<Rightarrow> string \<Rightarrow> manager" where
  "setLanguage m l =
     (let m1 = m\<lparr>language := l\<rparr>
      in case recognition m1 of None \<Rightarrow> m1 | Some r \<Rightarrow> m1\<lparr>recognition := Some (r\<lparr>lang := l\<rparr>)\<rparr>)"

text \<open>
  \<open>start\<close> of the TypeScript manager. \<open>throws\<close> is the message of the exception that the
  transport's \<open>start()\<close> throws in this call, \<open>None\<close> when it returns.
\<close>

definition start :: "manager \<Rightarrow> bool \<Rightarrow> string option \<Rightarrow> bool \<times> manager \<times> voiceAction list" where
  "start m supported throws =
     (if recognition m = None \<and> \<not> fst (init m supported) then
        (False, m, [CallOnError (NotSupportedText (isChinese m))])
      else
        (let m1 = (if recognition m = None then snd (init m supported) else m);
             m2 = (case recognition m1 of None \<Rightarrow> m1
                   | Some r \<Rightarrow> m1\<lparr>recognition := Some (r\<lparr>lang := language m1\<rparr>)\<rparr>)
         in case throws of
              None \<Rightarrow>
                (True, m2\<lparr>isRecording := True\<rparr>,
                 [SetIsRecording True] @ (if recognition m2 \<noteq> None then [TransportStart] else [])
                 @ [CallOnStart])
            | Some message \<Rightarrow>
                (False, m2\<lparr>isRecording := False\<rparr>,
                 [SetIsRecording True] @ (if recognition m2 \<noteq> None then [TransportStart] else [])
                 @ [SetIsRecording False])))"

text \<open>\<open>stop\<close> of the TypeScript manager; an exception of the transport's \<open>stop()\<close> is caught
  and ignored, so the result does not depend on \<open>throws\<close>.\<close>

definition stop :: "manager \<Rightarrow> string option \<Rightarrow> manager \<times> voiceAction list" where
  "stop m throws =
     (m\<lparr>isRecording := False\<rparr>,
      [SetIsRecording False] @ (if recognition m \<noteq> None then [TransportStop] else []) @ [CallOnEnd])"

definition toggle :: "manager \<Rightarrow> bool \<Rightarrow> string option \<Rightarrow> bool \<times> manager \<times> voiceAction list" where
  "toggle m supported throws =
     (if isRecording m then
        (case stop m throws of (m1, done) \<Rightarrow> (isRecording m1, m1, done))
      else
        (case start m supported throws of (started, m1, done) \<Rightarrow> (isRecording m1, m1, done)))"

text \<open>The three event handlers that \<open>init\<close> installs on the transport. A result entry is
  its first transcript and its \<open>isFinal\<close> flag.\<close>

definition onresult :: "manager \<Rightarrow> nat \<Rightarrow> (string \<times> bool) list \<Rightarrow> manager \<times> voiceAction list" where
  "onresult m resultIndex results =
     (let finalTranscript = concat (map (\<lambda>r. fst r @ '' '') (filter snd (drop resultIndex results)))
      in (m, if finalTranscript \<noteq> [] then [CallOnResult finalTranscript] else []))"

definition onerror :: "manager \<Rightarrow> string \<Rightarrow> string option \<Rightarrow> manager \<times> voiceAction list" where
  "onerror m err throws =
     (case stop m throws of
        (m1, done) \<Rightarrow> (m1, done @ [CallOnError (VoiceErrorText (language m1 = ''zh-TW'') err)]))"

text \<open>The end handler: while the flag is set, the transport is started again, and an
  exception of that \<open>start()\<close> is caught and ignored.\<close>

definition onend :: "manager \<Rightarrow> string option \<Rightarrow> manager \<times> voiceAction list" where
  "onend m throws =
     (if isRecording m then (m, if recognition m \<noteq> None then [TransportStart] else [])
      else (m, []))"

text \<open>
  The JavaScript manager. Its \<open>init\<close> and \<open>setLanguage\<close> are those above. Its \<open>start\<close> keeps
  the flag set when the transport says it has already started; its \<open>stop\<close> calls no
  callback; its end handler calls \<open>onEnd\<close> when the flag is not set; it relays the
  platform's start event to \<open>onStart\<close>.
\<close>

definition startJs :: "manager \<Rightarrow> bool \<Rightarrow> string option \<Rightarrow> bool \<times> manager \<times> voiceAction list" where
  "startJs m supported throws =
     (if recognition m = None \<and> \<not> fst (init m supported) then
        (False, m, [CallOnError (NotSupportedText (isChinese m))])
      else
        (let m1 = (if recognition m = None then snd (init m supported) else m);
             m2 = (case recognition m1 of None \<Rightarrow> m1
                   | Some r \<Rightarrow> m1\<lparr>recognition := Some (r\<lparr>lang := language m1\<rparr>)\<rparr>)
         in case throws of
              None \<Rightarrow> (True, m2\<lparr>isRecording := True\<rparr>, [SetIsRecording True, TransportStart])
            | Some message \<Rightarrow>
                if includesStr message ''already started'' then
                  (True, m2\<lparr>isRecording := True\<rparr>, [SetIsRecording True, TransportStart])
                else
                  (False, m2\<lparr>isRecording := False\<rparr>,
                   [SetIsRecording True, TransportStart, SetIsRecording False])))"

definition stopJs :: "manager \<Rightarrow> string option \<Rightarrow> manager \<times> voiceAction list" where
  "stopJs m throws =
     (m\<lparr>isRecording := False\<rparr>,
      [SetIsRecording False] @ (if recognition m \<noteq> None then [TransportStop] else []))"

definition toggleJs :: "manager \<Rightarrow> bool \<Rightarrow> string option \<Rightarrow> bool \<times> manager \<times> voiceAction list" where
  "toggleJs m supported throws =
     (if isRecording m then
        (case stopJs m throws of (m1, done) \<Rightarrow> (isRecording m1, m1, done))
      else
        (case startJs m supported throws of (started, m1, done) \<Rightarrow> (isRecording m1, m1, done)))"

definition onresultJs :: "manager \<Rightarrow> nat \<Rightarrow> (string \<times> bool) list \<Rightarrow> manager \<times> voiceAction list" where
  "onresultJs m resultIndex results =
     (let finalTranscript = concat (map (\<lambda>r. fst r @ '' '') (filter snd (drop resultIndex results)));
          interimTranscript = concat (map fst (filter (\<lambda>r. \<not> snd r) (drop resultIndex results)))
      in (m, (if finalTranscript \<noteq> [] then [CallOnResult finalTranscript] else [])
             @ (if interimTranscript \<noteq> [] then [CallOnInterim interimTranscript] else [])))"

definition voiceErrorKeys :: "string list" where
  "voiceErrorKeys = [''not-allowed'', ''no-speech'', ''network'', ''audio-capture'', ''aborted'', ''default'']"

definition onerrorJs :: "manager \<Rightarrow> string \<Rightarrow> string option \<Rightarrow> manager \<times> voiceAction list" where
  "onerrorJs m err throws =
     (case stopJs m throws of
        (m1, done) \<Rightarrow>
          (m1, done @ [CallOnError (VoiceTableText (language m = ''zh-TW'')
                         (if err \<in> set voiceErrorKeys then err else ''default''))]))"

definition onendJs :: "manager \<Rightarrow> string option \<Rightarrow> manager \<times> voiceAction list" where
  "onendJs m throws =
     (if isRecording m then (m, if recognition m \<noteq> None then [TransportStart] else [])
      else (m, [CallOnEnd]))"

definition onstartJs :: "manager \<Rightarrow> manager \<times> voiceAction list" where
  "onstartJs m = (m, [CallOnStart])"

text \<open>How often \<open>onEnd\<close> is called in a list of actions, and a manager that was started on
  a platform with speech recognition.\<close>

definition countOnEnd :: "voiceAction list \<Rightarrow> nat" where
  "countOnEnd acts = length (filter (\<lambda>a. a = CallOnEnd) acts)"

definition activeManager :: manager where
  "activeManager = fst (snd (start newManager True None))"

definition activeManagerJs :: manager where
  "activeManagerJs = fst (snd (startJs newManager True None))"

text \<open>
  The events that the transport fires, and the handler that each manager has installed for
  them; an event without a handler does nothing. \<open>init\<close> of the TypeScript manager installs
  \<open>onresult\<close>, \<open>onerror\<close> and \<open>onend\<close>; \<open>_setupEventListeners\<close> of the JavaScript manager
  installs \<open>onstart\<close> as well. \<open>throws\<close> belongs to the call of the transport that the
  handler makes, if it makes one.
\<close>

datatype platformEvent =
    StartEvent
  | EndEvent
  | ErrorEvent string
  | ResultEvent nat "(string \<times> bool) list"

definition dispatch :: "manager \<Rightarrow> platformEvent \<Rightarrow> string option \<Rightarrow> manager \<times> voiceAction list" where
  "dispatch m ev throws =
     (case ev of
        StartEvent \<Rightarrow> (m, [])
      | EndEvent \<Rightarrow> onend m throws
      | ErrorEvent err \<Rightarrow> onerror m err throws
      | ResultEvent resultIndex results \<Rightarrow> onresult m resultIndex results)"

definition dispatchJs :: "manager \<Rightarrow> platformEvent \<Rightarrow> string option \<Rightarrow> manager \<times> voiceAction list" where
  "dispatchJs m ev throws =
     (case ev of
        StartEvent \<Rightarrow> onstartJs m
      | EndEvent \<Rightarrow> onendJs m throws
      | ErrorEvent err \<Rightarrow> onerrorJs m err throws
      | ResultEvent resultIndex results \<Rightarrow> onresultJs m resultIndex results)"

text \<open>The events of a list delivered one after the other, each with the \<open>throws\<close> of its
  handler, and the actions of the handlers in order.\<close>

fun deliver ::
  "(manager \<Rightarrow> platformEvent \<Rightarrow> string option \<Rightarrow> manager \<times> voiceAction list) \<Rightarrow>
   manager \<Rightarrow> (platformEvent \<times> string option) list \<Rightarrow> manager \<times> voiceAction list" where
  "deliver h m [] = (m, [])"
| "deliver h m ((ev, throws) # evs) =
     (case h m ev throws of
        (m1, done) \<Rightarrow> (case deliver h m1 evs of (m2, rest) \<Rightarrow> (m2, done @ rest)))"

text \<open>The actions that are calls of the caller's callbacks.\<close>

fun isCallback :: "voiceAction \<Rightarrow> bool" where
  "isCallback (SetIsRecording b) = False"
| "isCallback TransportStart = False"
| "isCallback TransportStop = False"
| "isCallback a = True"

section \<open>The parser has fuel enough\<close>

text \<open>
  Every second nested call of the parser consumes a character, so with fuel of twice the
  length of the text and two more, the parser gives what it gives with any larger fuel:
  \<open>JSON_parse\<close> never fails for lack of fuel.
\<close>

lemma skipWs_length: "length (skipWs s) \<le> length s"
  by (simp add: skipWs_def length_dropWhile_le)

lemma parseStringBody_shorter: "parseStringBody acc s = Some (str, r) \<Longrightarrow> length r < length s"
  by (induction acc s rule: parseStringBody.induct) (fastforce split: if_splits)+

lemma parseNumber_shorter: "parseNumber s = Some (v, r) \<Longrightarrow> length r < length s"
proof -
  assume a: "parseNumber s = Some (v, r)"
  have i: "parseInt x = Some (i, r1) \<Longrightarrow> length r1 < length x" for x i r1
    by (cases x) (auto simp: parseInt_def length_dropWhile_le le_imp_less_Suc split: if_splits)
  have f: "parseFrac x = Some (f, r2) \<Longrightarrow> length r2 \<le> length x" for x f r2
    by (cases x) (auto simp: parseFrac_def length_dropWhile_le le_SucI split: if_splits)
  have e: "parseExp x = Some (e, r3) \<Longrightarrow> length r3 \<le> length x" for x e r3
    by (cases x) (auto simp: parseExp_def Let_def split: if_splits list.splits
        intro: le_trans [OF length_dropWhile_le] le_SucI)
  from a obtain i r1 f r2 e where
    "parseInt (drop (length (case s of [] \<Rightarrow> [] | c # _ \<Rightarrow> if c = CHR ''-'' then [c] else [])) s) = Some (i, r1)"
    "parseFrac r1 = Some (f, r2)" "parseExp r2 = Some (e, r)"
    by (auto simp: parseNumber_def Let_def split: option.splits)
  from i [OF this(1)] f [OF this(2)] e [OF this(3)] show ?thesis
    by simp
qed

lemma parse_shorter:
  "(parseValue n s = Some (v, r) \<longrightarrow> length r < length s)
   \<and> (parseElements n acc s = Some (v, r) \<longrightarrow> length r < length s)
   \<and> (parseMembers n macc s = Some (v, r) \<longrightarrow> length r < length s)"
proof (induction n arbitrary: s v r acc macc)
  case 0
  show ?case by simp
next
  case (Suc n)
  have V: "parseValue n s = Some (v, r) \<Longrightarrow> length r < length s" for s v r
    using Suc by blast
  have E: "parseElements n acc s = Some (v, r) \<Longrightarrow> length r < length s" for s v r acc
    using Suc by blast
  have M: "parseMembers n macc s = Some (v, r) \<Longrightarrow> length r < length s" for s v r macc
    using Suc by blast
  have V': "parseValue n (skipWs x) = Some (v, r) \<Longrightarrow> length r < length x" for x v r
    using V [of "skipWs x" v r] skipWs_length [of x] by simp
  have sk: "skipWs x = d # y \<Longrightarrow> length y < length x" for x d y
    using skipWs_length [of x] by simp
  have 1: "parseValue (Suc n) s = Some (v, r) \<longrightarrow> length r < length s"
  proof
    assume a: "parseValue (Suc n) s = Some (v, r)"
    then obtain c cs where s: "s = c # cs" by (cases s) auto
    show "length r < length s"
      using a s skipWs_length [of cs]
      by (auto simp: startsWith_def split: if_splits list.splits option.splits
          dest!: M E parseStringBody_shorter parseNumber_shorter)
  qed
  have 2: "parseElements (Suc n) acc s = Some (v, r) \<longrightarrow> length r < length s"
  proof
    assume a: "parseElements (Suc n) acc s = Some (v, r)"
    show "length r < length s"
      using a skipWs_length [of s]
      by (auto split: if_splits list.splits option.splits dest!: V' E sk)
  qed
  have 3: "parseMembers (Suc n) macc s = Some (v, r) \<longrightarrow> length r < length s"
  proof
    assume a: "parseMembers (Suc n) macc s = Some (v, r)"
    show "length r < length s"
      using a skipWs_length [of s]
      by (auto split: if_splits list.splits option.splits dest!: V' M sk parseStringBody_shorter)
  qed
  from 1 2 3 show ?case by blast
qed


lemma parseValue_shorter: "parseValue n s = Some (v, r) \<Longrightarrow> length r < length s"
  using parse_shorter [of n s v r] by blast

lemma fuel_step:
  "(2 * length s + 1 \<le> n \<longrightarrow> parseValue (Suc n) s = parseValue n s)
   \<and> (2 * length s + 2 \<le> n \<longrightarrow> parseElements (Suc n) acc s = parseElements n acc s)
   \<and> (2 * length s + 2 \<le> n \<longrightarrow> parseMembers (Suc n) macc s = parseMembers n macc s)"
proof (induction n arbitrary: s acc macc)
  case 0
  show ?case by simp
next
  case (Suc n)
  have V: "2 * length s + 1 \<le> n \<Longrightarrow> parseValue (Suc n) s = parseValue n s" for s
    using Suc by blast
  have E: "2 * length s + 2 \<le> n \<Longrightarrow> parseElements (Suc n) acc s = parseElements n acc s" for s acc
    using Suc by blast
  have M: "2 * length s + 2 \<le> n \<Longrightarrow> parseMembers (Suc n) macc s = parseMembers n macc s" for s macc
    using Suc by blast
  have sh: "parseValue n (skipWs x) = Some (v, r) \<Longrightarrow> length r < length x" for x v r
    using parseValue_shorter [of n "skipWs x" v r] skipWs_length [of x] by simp
  have sk: "skipWs x = d # y \<Longrightarrow> length y < length x" for x d y
    using skipWs_length [of x] by simp
  have sb: "parseStringBody [] x = Some (k, y) \<Longrightarrow> length y < length x" for x k y
    by (rule parseStringBody_shorter)
  have 1: "2 * length s + 1 \<le> Suc n \<longrightarrow> parseValue (Suc (Suc n)) s = parseValue (Suc n) s"
  proof
    assume b: "2 * length s + 1 \<le> Suc n"
    show "parseValue (Suc (Suc n)) s = parseValue (Suc n) s"
    proof (cases s)
      case Nil
      then show ?thesis by simp
    next
      case (Cons c cs)
      show ?thesis
      proof (cases "skipWs cs")
        case Nil
        with Cons show ?thesis by simp
      next
        case (Cons d r)
        then have "length (d # r) \<le> length cs"
          using skipWs_length [of cs] by simp
        with b \<open>s = c # cs\<close> have "2 * length (d # r) + 2 \<le> n"
          by simp
        then have "parseMembers (Suc n) [] (d # r) = parseMembers n [] (d # r)"
          "parseElements (Suc n) [] (d # r) = parseElements n [] (d # r)"
          using M E by blast+
        with Cons \<open>s = c # cs\<close> show ?thesis
          by (auto simp del: parseElements.simps parseMembers.simps)
      qed
    qed
  qed
  have 2: "2 * length s + 2 \<le> Suc n \<longrightarrow> parseElements (Suc (Suc n)) acc s = parseElements (Suc n) acc s"
  proof
    assume b: "2 * length s + 2 \<le> Suc n"
    have v: "parseValue (Suc n) (skipWs s) = parseValue n (skipWs s)"
      using b skipWs_length [of s] by (intro V) simp
    show "parseElements (Suc (Suc n)) acc s = parseElements (Suc n) acc s"
    proof (cases "parseValue n (skipWs s)")
      case None
      with v show ?thesis by simp
    next
      case (Some p)
      obtain w r where p: "p = (w, r)" by (cases p)
      show ?thesis
      proof (cases "skipWs r")
        case Nil
        with v Some p show ?thesis by simp
      next
        case (Cons d r')
        have "length r' < length r" "length r < length s"
          using sk [OF Cons] sh [of s w r] Some p by simp_all
        with b have "2 * length r' + 2 \<le> n"
          by simp
        then have "parseElements (Suc n) (w # acc) r' = parseElements n (w # acc) r'"
          by (rule E)
        with v Some p Cons show ?thesis
          by simp
      qed
    qed
  qed
  have 3: "2 * length s + 2 \<le> Suc n \<longrightarrow> parseMembers (Suc (Suc n)) macc s = parseMembers (Suc n) macc s"
  proof
    assume b: "2 * length s + 2 \<le> Suc n"
    show "parseMembers (Suc (Suc n)) macc s = parseMembers (Suc n) macc s"
    proof (cases "skipWs s")
      case Nil
      then show ?thesis by simp
    next
      case (Cons q r)
      note c1 = this
      show ?thesis
      proof (cases "parseStringBody [] r")
        case None
        with c1 show ?thesis by simp
      next
        case (Some kp)
        obtain k r1 where kp: "kp = (k, r1)" by (cases kp)
        show ?thesis
        proof (cases "skipWs r1")
          case Nil
          with c1 Some kp show ?thesis by simp
        next
          case (Cons col r2)
          note c2 = this
          have l2: "length r2 < length s"
            using sk [OF c1] sb [of r k r1] Some kp sk [OF c2] by simp
          have v: "parseValue (Suc n) (skipWs r2) = parseValue n (skipWs r2)"
            using b l2 skipWs_length [of r2] by (intro V) simp
          show ?thesis
          proof (cases "parseValue n (skipWs r2)")
            case None
            with v c1 c2 Some kp show ?thesis by simp
          next
            case (Some p)
            note s2 = this
            obtain w r3 where p: "p = (w, r3)" by (cases p)
            show ?thesis
            proof (cases "skipWs r3")
              case Nil
              with v c1 c2 s2 p \<open>parseStringBody [] r = Some kp\<close> kp show ?thesis by simp
            next
              case (Cons d r4)
              have "length r4 < length r3" "length r3 < length r2"
                using sk [OF Cons] sh [of r2 w r3] s2 p by simp_all
              with b l2 have "2 * length r4 + 2 \<le> n"
                by simp
              then have "parseMembers (Suc n) ((k, w) # macc) r4 = parseMembers n ((k, w) # macc) r4"
                by (rule M)
              with v c1 c2 s2 p Cons \<open>parseStringBody [] r = Some kp\<close> kp show ?thesis
                by simp
            qed
          qed
        qed
      qed
    qed
  qed
  from 1 2 3 show ?case by blast
qed

lemma fuel_enough: "2 * length s + 1 \<le> n \<Longrightarrow> parseValue (n + k) s = parseValue n s"
proof (induction k)
  case 0
  show ?case by simp
next
  case (Suc k)
  then have "2 * length s + 1 \<le> n + k"
    by simp
  with fuel_step [of s "n + k"] have "parseValue (Suc (n + k)) s = parseValue (n + k) s"
    by blast
  with Suc show ?case
    by simp
qed

lemma JSON_parse_any_fuel:
  "2 * length s + 2 \<le> n \<Longrightarrow>
   JSON_parse s = (case parseValue n (skipWs s) of
                     None \<Rightarrow> None
                   | Some (v, r) \<Rightarrow> if skipWs r = [] then Some v else None)"
proof -
  assume a: "2 * length s + 2 \<le> n"
  then obtain k where n: "n = (2 * length s + 2) + k"
    using le_Suc_ex by blast
  have "2 * length (skipWs s) + 1 \<le> 2 * length s + 2"
    using skipWs_length [of s] by simp
  from fuel_enough [OF this, of k] show ?thesis
    unfolding JSON_parse_def n by simp
qed

section \<open>Properties of the repair engine\<close>

lemma startsWith_append: "startsWith s (p @ q) \<Longrightarrow> startsWith s p"
  by (auto simp: startsWith_def) (metis append_eq_conv_conj take_take length_append le_add1 min_def)

lemma includesStr_append: "includesStr s (p @ q) \<Longrightarrow> includesStr s p"
  by (induction s) (auto dest: startsWith_append)

lemma no_fence_stripFence: "\<not> includesStr s fence \<Longrightarrow> stripFence s = s"
  using includesStr_append [of s fence "''json''"] by (auto simp: stripFence_def fenceJson_def)

text \<open>
  C1 (as amended). \<open>extractJsonFromText\<close> returns the fence-stripped, trimmed text with
  the repair pass skipped whenever that text parses as JSON. So a string that parses as
  JSON, has no white space at either end and holds no triple-backtick marker is returned
  unchanged.
\<close>

theorem extract_valid_unchanged:
  "(isValidJson (trim (stripFence s)) \<longrightarrow> extractJsonFromText s = trim (stripFence s)) \<and>
   (isValidJson s \<and> trim s = s \<and> \<not> includesStr s fence \<longrightarrow> extractJsonFromText s = s)"
  by (auto simp: extractJsonFromText_def no_fence_stripFence)

theorem extract_valid_unchanged_witness:
  "isValidJson ''{\"a\": [1, 2]}'' \<and> trim ''{\"a\": [1, 2]}'' = ''{\"a\": [1, 2]}'' \<and>
   \<not> includesStr ''{\"a\": [1, 2]}'' fence \<and> isValidJson (trim (stripFence ''{\"a\": [1, 2]}'')) \<and>
   extractJsonFromText ''{\"a\": [1, 2]}'' = ''{\"a\": [1, 2]}''"
proof -
  have h: "isValidJson ''{\"a\": [1, 2]}'' \<and> trim ''{\"a\": [1, 2]}'' = ''{\"a\": [1, 2]}'' \<and>
    \<not> includesStr ''{\"a\": [1, 2]}'' fence"
    by code_simp
  have h2: "isValidJson (trim (stripFence ''{\"a\": [1, 2]}''))"
    by code_simp
  from h h2 extract_valid_unchanged [of "''{\"a\": [1, 2]}''"] show ?thesis
    by blast
qed

text \<open>
  C1 as stated fails: the text \<open> {"a": 1}\<close>, with a leading space, parses as JSON, and
  \<open>extractJsonFromText\<close> returns it without the space. A JSON string literal that holds
  fence markers parses as JSON, too, and only the text between its markers is returned.
\<close>

theorem extract_valid_counterexample:
  "isValidJson '' {\"a\": 1}'' \<and> extractJsonFromText '' {\"a\": 1}'' \<noteq> '' {\"a\": 1}''
   \<and> isValidJson ''\"```json 1 ```\"'' \<and> extractJsonFromText ''\"```json 1 ```\"'' = ''1''"
  by code_simp

text \<open>
  The loop of \<open>repairTruncatedJson\<close> computes the net numbers of open braces and brackets and
  whether the text ends inside a string literal.
\<close>

lemma scanStep_escaped: "escapeNext st \<Longrightarrow> scanStep d st = st\<lparr>escapeNext := False\<rparr>"
  by (simp add: scanStep_def)

lemma special_chars:
  "dquote \<noteq> backslash" "backslash \<noteq> dquote"
  "CHR ''{'' \<noteq> backslash" "CHR ''}'' \<noteq> backslash" "CHR ''['' \<noteq> backslash" "CHR '']'' \<noteq> backslash"
  "CHR ''{'' \<noteq> dquote" "CHR ''}'' \<noteq> dquote" "CHR ''['' \<noteq> dquote" "CHR '']'' \<noteq> dquote"
  by (simp_all add: dquote_def backslash_def)

lemma scanStep_backslash: "\<not> escapeNext st \<Longrightarrow> scanStep backslash st = st\<lparr>escapeNext := True\<rparr>"
  by (simp add: scanStep_def)

lemma scanStep_dquote: "\<not> escapeNext st \<Longrightarrow> scanStep dquote st = st\<lparr>inString := \<not> inString st\<rparr>"
  by (simp add: scanStep_def special_chars)

lemma scanStep_inside:
  "\<not> escapeNext st \<Longrightarrow> inString st \<Longrightarrow> c \<noteq> backslash \<Longrightarrow> c \<noteq> dquote \<Longrightarrow> scanStep c st = st"
  by (simp add: scanStep_def)

lemma scanStep_plain:
  "\<not> escapeNext st \<Longrightarrow> \<not> inString st \<Longrightarrow> c \<noteq> backslash \<Longrightarrow> c \<noteq> dquote \<Longrightarrow>
   \<not> escapeNext (scanStep c st) \<and> \<not> inString (scanStep c st)
   \<and> braceCount (scanStep c st) =
        braceCount st + int (count_list [c] CHR ''{'') - int (count_list [c] CHR ''}'')
   \<and> bracketCount (scanStep c st) =
        bracketCount st + int (count_list [c] CHR ''['') - int (count_list [c] CHR '']'')"
  by (simp add: scanStep_def)

lemma count_list_Cons_single: "count_list (c # xs) y = count_list [c] y + count_list xs y"
  by simp

lemma fold_scan:
  "\<not> escapeNext st \<Longrightarrow> inString st = q \<Longrightarrow>
   braceCount (fold scanStep s st) =
     braceCount st + int (count_list (structural q s) CHR ''{'')
       - int (count_list (structural q s) CHR ''}'')
   \<and> bracketCount (fold scanStep s st) =
     bracketCount st + int (count_list (structural q s) CHR ''['')
       - int (count_list (structural q s) CHR '']'')
   \<and> inString (fold scanStep s st) = unterminated q s"
proof (induction q s arbitrary: st rule: structural.induct)
  case (1 q)
  then show ?case by simp
next
  case (2 q c)
  show ?case
  proof (cases "c = backslash \<or> c = dquote \<or> q")
    case True
    then consider "c = backslash" | "c \<noteq> backslash" "c = dquote" | "c \<noteq> backslash" "c \<noteq> dquote" "q"
      by blast
    then show ?thesis
    proof cases
      case 1
      with 2 show ?thesis by (simp add: scanStep_backslash special_chars)
    next
      case 2
      with \<open>\<not> escapeNext st\<close> \<open>inString st = q\<close> show ?thesis
        by (simp add: scanStep_dquote special_chars)
    next
      case 3
      with \<open>\<not> escapeNext st\<close> \<open>inString st = q\<close> show ?thesis
        by (simp add: scanStep_inside)
    qed
  next
    case False
    with 2 scanStep_plain [of st c] show ?thesis
      by simp
  qed
next
  case (3 q c d cs)
  note ne = \<open>\<not> escapeNext st\<close> and iq = \<open>inString st = q\<close>
  show ?case
  proof (cases "c = backslash")
    case True
    have "scanStep d (scanStep c st) = st"
      using True ne by (simp add: scanStep_backslash scanStep_escaped)
    with 3(1) [OF True ne iq] True show ?thesis
      by simp
  next
    case False
    note nb = this
    show ?thesis
    proof (cases "c = dquote")
      case True
      let ?st = "st\<lparr>inString := \<not> inString st\<rparr>"
      have s: "scanStep c st = ?st"
        using True ne by (simp add: scanStep_dquote)
      have "\<not> escapeNext ?st" "inString ?st = (\<not> q)"
        using ne iq by simp_all
      from 3(2) [OF nb True this] s True nb show ?thesis
        by simp
    next
      case False
      note nq = this
      show ?thesis
      proof (cases q)
        case True
        have s: "scanStep c st = st"
          using True nb nq ne iq by (simp add: scanStep_inside)
        from 3(3) [OF nb nq True ne iq] s True nb nq show ?thesis
          by simp
      next
        case False
        note p = scanStep_plain [of st c]
        have e: "\<not> escapeNext (scanStep c st)" "inString (scanStep c st) = q"
          using p False nb nq ne iq by simp_all
        have sc: "structural q (c # d # cs) = c # structural q (d # cs)"
          "unterminated q (c # d # cs) = unterminated q (d # cs)"
          using False nb nq by simp_all
        have f: "fold scanStep (c # d # cs) st = fold scanStep (d # cs) (scanStep c st)"
          by simp
        from 3(4) [OF nb nq False e] p False nb nq ne iq show ?thesis
          unfolding sc f count_list_Cons_single [of c "structural q (d # cs)"]
          by simp
      qed
    qed
  qed
qed

lemma scan_counts:
  "braceCount (scan s) = netOpen CHR ''{'' CHR ''}'' s
   \<and> bracketCount (scan s) = netOpen CHR ''['' CHR '']'' s
   \<and> inString (scan s) = unterminated False s"
  using fold_scan [of scanInit False s] by (simp add: scan_def scanInit_def netOpen_def)


lemma lastIndexOf_last:
  assumes "c \<in> set s"
  shows "0 \<le> lastIndexOf s c \<and> nat (lastIndexOf s c) < length s
    \<and> s ! nat (lastIndexOf s c) = c \<and> c \<notin> set (drop (Suc (nat (lastIndexOf s c))) s)"
proof -
  let ?n = "length (takeWhile (\<lambda>x. x \<noteq> c) (rev s))"
  have "takeWhile (\<lambda>x. x \<noteq> c) (rev s) \<noteq> rev s"
    using assms by (simp add: takeWhile_eq_all_conv)
  then have "?n \<noteq> length (rev s)"
    by (metis takeWhile_eq_take take_all order_refl)
  then have n: "?n < length s"
    using length_takeWhile_le [of "\<lambda>x. x \<noteq> c" "rev s"] by simp
  have i: "lastIndexOf s c = int (length s - 1 - ?n)"
    using assms n by (simp add: lastIndexOf_def)
  have "rev s ! ?n = c"
    using nth_length_takeWhile [of "\<lambda>x. x \<noteq> c" "rev s"] n by simp
  then have at: "s ! (length s - 1 - ?n) = c"
    using n by (simp add: rev_nth)
  have "drop (Suc (length s - 1 - ?n)) s = rev (take ?n (rev s))"
    using n by (simp add: take_rev Suc_diff_Suc)
  also have "take ?n (rev s) = takeWhile (\<lambda>x. x \<noteq> c) (rev s)"
    by (metis takeWhile_eq_take)
  finally have "c \<notin> set (drop (Suc (length s - 1 - ?n)) s)"
    by (auto dest: set_takeWhileD)
  moreover have "nat (lastIndexOf s c) = length s - 1 - ?n" and "0 \<le> lastIndexOf s c"
    unfolding i by simp_all
  ultimately show ?thesis
    using n at by simp
qed

lemma lastIndexOf_absent: "c \<notin> set s \<Longrightarrow> lastIndexOf s c = - 1"
  by (simp add: lastIndexOf_def)

text \<open>
  C2. When the scan of the input ends inside a string and the trimmed text before the last
  quote ends with a colon, a comma or an opening bracket, then that quote exists (it is a
  quote of the input and no quote follows it), and \<open>repairTruncatedJson\<close> returns the text
  before it, then \<open>null\<close>, then one \<open>]\<close> for each net-open bracket and one \<open>}\<close> for each
  net-open brace of this new text, where net-open counts the openers outside string
  literals less the closers outside string literals. The scan ends inside a string exactly
  when the input ends inside an unterminated string literal. For the input \<open>{"a": "hello\<close>
  the result is \<open>{"a": null}\<close>.
\<close>

theorem repair_truncated_string_value:
  "(inString (scan s)
      \<and> (endsWith (trim (take (nat (lastIndexOf s dquote)) s)) '':'' \<or>
         endsWith (trim (take (nat (lastIndexOf s dquote)) s)) '','' \<or>
         endsWith (trim (take (nat (lastIndexOf s dquote)) s)) ''['')
    \<longrightarrow> nat (lastIndexOf s dquote) < length s
        \<and> s ! nat (lastIndexOf s dquote) = dquote
        \<and> dquote \<notin> set (drop (Suc (nat (lastIndexOf s dquote))) s)
        \<and> repairTruncatedJson s =
            (take (nat (lastIndexOf s dquote)) s @ ''null'')
            @ replicate (nat (netOpen CHR ''['' CHR '']'' (take (nat (lastIndexOf s dquote)) s @ ''null''))) CHR '']''
            @ replicate (nat (netOpen CHR ''{'' CHR ''}'' (take (nat (lastIndexOf s dquote)) s @ ''null''))) CHR ''}'')
   \<and> inString (scan s) = unterminated False s
   \<and> repairTruncatedJson ''{\"a\": \"hello'' = ''{\"a\": null}''"
proof (intro conjI impI)
  show "inString (scan s) = unterminated False s"
    using scan_counts [of s] by blast
  show "repairTruncatedJson ''{\"a\": \"hello'' = ''{\"a\": null}''"
    by code_simp
next
  assume a: "inString (scan s)
      \<and> (endsWith (trim (take (nat (lastIndexOf s dquote)) s)) '':'' \<or>
         endsWith (trim (take (nat (lastIndexOf s dquote)) s)) '','' \<or>
         endsWith (trim (take (nat (lastIndexOf s dquote)) s)) ''['')"
  have pos: "lastIndexOf s dquote > 0"
  proof (rule ccontr)
    assume "\<not> lastIndexOf s dquote > 0"
    then have "trim (take (nat (lastIndexOf s dquote)) s) = []"
      by (simp add: trim_def)
    with a show False
      by (simp add: endsWith_def)
  qed
  then have "dquote \<in> set s"
    using lastIndexOf_absent [of dquote s] by force
  note l = lastIndexOf_last [OF this]
  from l show "nat (lastIndexOf s dquote) < length s"
    by blast
  from l show "s ! nat (lastIndexOf s dquote) = dquote"
    by blast
  from l show "dquote \<notin> set (drop (Suc (nat (lastIndexOf s dquote))) s)"
    by blast
  have "repairTruncatedJson s =
      (take (nat (lastIndexOf s dquote)) s @ ''null'')
      @ closers (scan (take (nat (lastIndexOf s dquote)) s @ ''null''))"
    using a pos by (simp add: repairTruncatedJson_def fixString_def Let_def substring0_def)
  then show "repairTruncatedJson s =
            (take (nat (lastIndexOf s dquote)) s @ ''null'')
            @ replicate (nat (netOpen CHR ''['' CHR '']'' (take (nat (lastIndexOf s dquote)) s @ ''null''))) CHR '']''
            @ replicate (nat (netOpen CHR ''{'' CHR ''}'' (take (nat (lastIndexOf s dquote)) s @ ''null''))) CHR ''}''"
    using scan_counts [of "take (nat (lastIndexOf s dquote)) s @ ''null''"]
    by (simp add: closers_def)
qed

theorem repair_truncated_string_value_witness:
  "inString (scan truncatedNested)
   \<and> endsWith (trim (take (nat (lastIndexOf truncatedNested dquote)) truncatedNested)) ''[''
   \<and> netOpen CHR ''['' CHR '']'' (take (nat (lastIndexOf truncatedNested dquote)) truncatedNested @ ''null'') = 1
   \<and> netOpen CHR ''{'' CHR ''}'' (take (nat (lastIndexOf truncatedNested dquote)) truncatedNested @ ''null'') = 1
   \<and> repairTruncatedJson truncatedNested = ''{\"a\": {\"b\": [1]}, \"c\": [null]}''"
proof -
  have h: "inString (scan truncatedNested)
    \<and> endsWith (trim (take (nat (lastIndexOf truncatedNested dquote)) truncatedNested)) ''[''"
    by code_simp
  have t: "take (nat (lastIndexOf truncatedNested dquote)) truncatedNested @ ''null''
      = ''{\"a\": {\"b\": [1]}, \"c\": [null''"
    by code_simp
  have n: "netOpen CHR ''['' CHR '']'' ''{\"a\": {\"b\": [1]}, \"c\": [null'' = 1"
    "netOpen CHR ''{'' CHR ''}'' ''{\"a\": {\"b\": [1]}, \"c\": [null'' = 1"
    by code_simp+
  from h repair_truncated_string_value [of truncatedNested]
  have "repairTruncatedJson truncatedNested =
      (take (nat (lastIndexOf truncatedNested dquote)) truncatedNested @ ''null'')
      @ replicate (nat (netOpen CHR ''['' CHR '']'' (take (nat (lastIndexOf truncatedNested dquote)) truncatedNested @ ''null''))) CHR '']''
      @ replicate (nat (netOpen CHR ''{'' CHR ''}'' (take (nat (lastIndexOf truncatedNested dquote)) truncatedNested @ ''null''))) CHR ''}''"
    by blast
  then have "repairTruncatedJson truncatedNested = ''{\"a\": {\"b\": [1]}, \"c\": [null]}''"
    unfolding t n by simp
  with h t n show ?thesis
    by simp
qed

section \<open>Properties of the orchestrator\<close>

lemma MAX_ATTEMPTS_3: "MAX_ATTEMPTS CONFIG_RETRY = 3"
  by (simp add: CONFIG_RETRY_def)

lemma tryAttempt_500:
  "online env k \<Longrightarrow> transport env k = Response 500 body \<Longrightarrow>
   tryAttempt env h k = (Inl (apiErrorOf 500 body), [OnStatus (statusMessage h k) Loading, Fetch])"
  by (simp add: tryAttempt_def responseOk_def)

lemma isRetryable_apiErrorOf_500: "isRetryableError (apiErrorOf 500 body)"
  by (simp add: apiErrorOf_def)

lemma getErrorMessage_500: "getErrorMessage (Some (apiErrorOf 500 body)) b = ''Server error. The AI service is experiencing issues.''"
  by (simp add: apiErrorOf_def ERROR_MESSAGES_def)

lemma retryLoop_retry:
  assumes "tryAttempt env h k = (Inl e, done)" and "isRetryableError e"
    and "k < MAX_ATTEMPTS CONFIG_RETRY - 1"
  shows "retryLoop env h k le =
     after (done @
            [OnStatus (''Rate limited. Retrying in ''
                      @ roundText (arith env) (quot (arith env) (calculateRetryDelay (arith env) k CONFIG_RETRY (random env k)) (Finite 1000))
                      @ '' seconds...'') Loading,
             Sleep (calculateRetryDelay (arith env) k CONFIG_RETRY (random env k))])
       (retryLoop env h (Suc k) (Some e))"
proof -
  have "k < MAX_ATTEMPTS CONFIG_RETRY"
    using assms(3) by arith
  with assms show ?thesis
    by (subst retryLoop.simps) simp
qed

lemma retryLoop_surface:
  assumes "tryAttempt env h k = (Inl e, done)" and "k < MAX_ATTEMPTS CONFIG_RETRY"
    and "\<not> isRetryableError e \<or> k = MAX_ATTEMPTS CONFIG_RETRY - 1"
  shows "retryLoop env h k le =
     (None, done @ [OnStatus (getErrorMessage (Some e) (onlineAtReport env)) ErrorStatus, OnError (Some e)])"
  using assms by (subst retryLoop.simps) (auto simp: after_def reportFailure_def)

lemma retryLoop_success:
  assumes "tryAttempt env h k = (Inr parsed, done)" and "k < MAX_ATTEMPTS CONFIG_RETRY"
  shows "retryLoop env h k le = (Some parsed, done)"
  using assms by (subst retryLoop.simps) simp

lemma retryLoop_500:
  assumes "\<forall>k. online env k" and "\<forall>k. transport env k = Response 500 (body k)"
  shows "retryLoop env h 0 None =
    (None,
     [OnStatus (statusMessage h 0) Loading, Fetch,
      OnStatus (''Rate limited. Retrying in ''
                @ roundText (arith env) (quot (arith env) (calculateRetryDelay (arith env) 0 CONFIG_RETRY (random env 0)) (Finite 1000))
                @ '' seconds...'') Loading,
      Sleep (calculateRetryDelay (arith env) 0 CONFIG_RETRY (random env 0)),
      OnStatus (statusMessage h 1) Loading, Fetch,
      OnStatus (''Rate limited. Retrying in ''
                @ roundText (arith env) (quot (arith env) (calculateRetryDelay (arith env) 1 CONFIG_RETRY (random env 1)) (Finite 1000))
                @ '' seconds...'') Loading,
      Sleep (calculateRetryDelay (arith env) 1 CONFIG_RETRY (random env 1)),
      OnStatus (statusMessage h 2) Loading, Fetch,
      OnStatus ''Server error. The AI service is experiencing issues.'' ErrorStatus,
      OnError (Some (apiErrorOf 500 (body 2)))])"
proof -
  have t: "tryAttempt env h k = (Inl (apiErrorOf 500 (body k)), [OnStatus (statusMessage h k) Loading, Fetch])" for k
    using assms by (simp add: tryAttempt_500)
  have b0: "0 < MAX_ATTEMPTS CONFIG_RETRY - 1" and b1: "Suc 0 < MAX_ATTEMPTS CONFIG_RETRY - 1"
    and b2: "Suc (Suc 0) < MAX_ATTEMPTS CONFIG_RETRY"
    and e2: "\<not> isRetryableError (apiErrorOf 500 (body (Suc (Suc 0)))) \<or> Suc (Suc 0) = MAX_ATTEMPTS CONFIG_RETRY - 1"
    by (simp_all add: MAX_ATTEMPTS_3)
  note s0 = retryLoop_retry [OF t isRetryable_apiErrorOf_500 b0]
  note s1 = retryLoop_retry [OF t isRetryable_apiErrorOf_500 b1]
  note s2 = retryLoop_surface [OF t b2 e2]
  show ?thesis
    unfolding s0 s1 s2 after_def getErrorMessage_500
    by (simp add: numeral_2_eq_2)
qed

lemma parseWithAI_loop:
  assumes "\<not> falsy (apiKey env)" and "trim inputText \<noteq> [] \<or> currentImage env \<noteq> None"
  shows "parseWithAI env inputText =
    (Resolved (fst (retryLoop env (currentImage env \<noteq> None) 0 None)),
     snd (retryLoop env (currentImage env \<noteq> None) 0 None))"
  using assms by (auto simp: parseWithAI_def Let_def case_prod_beta)

text \<open>
  C5 (as amended). With a credential, a non-empty input, the host online at every attempt
  and a transport that answers every submission with status 500, one call of \<open>parseWithAI\<close>
  submits exactly \<open>MAX_ATTEMPTS\<close> (3) times, suspends for the backoff delay of attempt 0
  between the first and the second submission and for the one of attempt 1 between the
  second and the third, then reports the error of the last response through \<open>onError\<close> and
  the error status, and returns \<open>null\<close>, with no submission after that.
\<close>

theorem retry_budget:
  assumes cred: "\<not> falsy (apiKey env)"
    and input: "trim inputText \<noteq> []"
    and probe: "\<forall>k. online env k"
    and status: "\<forall>k. transport env k = Response 500 (body k)"
  shows "fst (parseWithAI env inputText) = Resolved None
    \<and> effects (snd (parseWithAI env inputText)) =
        [Fetch, Sleep (calculateRetryDelay (arith env) 0 CONFIG_RETRY (random env 0)),
         Fetch, Sleep (calculateRetryDelay (arith env) 1 CONFIG_RETRY (random env 1)),
         Fetch, OnError (Some (apiErrorOf 500 (body 2)))]
    \<and> submissions (snd (parseWithAI env inputText)) = MAX_ATTEMPTS CONFIG_RETRY
    \<and> last (filter isStatus (snd (parseWithAI env inputText))) =
        OnStatus ''Server error. The AI service is experiencing issues.'' ErrorStatus"
  using cred input retryLoop_500 [OF probe status]
  by (simp add: parseWithAI_def Let_def MAX_ATTEMPTS_3 effects_def submissions_def)

theorem retry_budget_witness:
  "fst (parseWithAI envFailing500 ''fever and cough'') = Resolved None
   \<and> effects (snd (parseWithAI envFailing500 ''fever and cough'')) =
       [Fetch, Sleep (Finite 1500), Fetch, Sleep (Finite 2500), Fetch,
        OnError (Some (ApiError ''API request failed: 500'' 500))]
   \<and> submissions (snd (parseWithAI envFailing500 ''fever and cough'')) = 3"
proof -
  have c: "\<not> falsy (apiKey envFailing500)"
    by (simp add: envFailing500_def falsy_def)
  have i: "trim ''fever and cough'' \<noteq> []"
    by code_simp
  have p: "\<forall>k. online envFailing500 k"
    by (simp add: envFailing500_def)
  have s: "\<forall>k. transport envFailing500 k = Response 500 (Inr \<lparr>candidates = None, serviceMessage = None\<rparr>)"
    by (simp add: envFailing500_def failing500_def)
  have m: "apiErrorOf 500 (Inr \<lparr>candidates = None, serviceMessage = None\<rparr>) = ApiError ''API request failed: 500'' 500"
    by code_simp
  have d: "calculateRetryDelay (arith envFailing500) 0 CONFIG_RETRY (random envFailing500 0) = Finite 1500"
    "calculateRetryDelay (arith envFailing500) 1 CONFIG_RETRY (random envFailing500 1) = Finite 2500"
    by (simp_all add: calculateRetryDelay_def CONFIG_RETRY_def envFailing500_def exactArith_def)
  from retry_budget [OF c i p s] show ?thesis
    unfolding m d MAX_ATTEMPTS_3 by blast
qed

lemma tryAttempt_offline:
  "\<not> online env k \<Longrightarrow> tryAttempt env h k = (Inl (NetworkError ''You appear to be offline.''), [OnStatus (statusMessage h k) Loading])"
  by (simp add: tryAttempt_def)

text \<open>
  C5 as stated fails: the claim does not ask for the host to be online. When
  \<open>navigator.onLine\<close> is false at the first attempt, that attempt ends in a \<open>NetworkError\<close>
  before any submission; it is retried, and the call makes two submissions, each answered
  with status 500, not three.
\<close>

theorem retry_budget_counterexample:
  "\<not> falsy (apiKey envOfflineFirst) \<and> trim ''fever and cough'' \<noteq> []
   \<and> transport envOfflineFirst 0 = Response 500 (Inr \<lparr>candidates = None, serviceMessage = None\<rparr>)
   \<and> transport envOfflineFirst 1 = Response 500 (Inr \<lparr>candidates = None, serviceMessage = None\<rparr>)
   \<and> transport envOfflineFirst 2 = Response 500 (Inr \<lparr>candidates = None, serviceMessage = None\<rparr>)
   \<and> submissions (snd (parseWithAI envOfflineFirst ''fever and cough'')) = 2
   \<and> MAX_ATTEMPTS CONFIG_RETRY = 3"
proof -
  have t: "trim ''fever and cough'' \<noteq> []"
    by code_simp
  have a0: "tryAttempt envOfflineFirst False 0 = (Inl (NetworkError ''You appear to be offline.''), [OnStatus (statusMessage False 0) Loading])"
    by (simp add: tryAttempt_offline envOfflineFirst_def)
  have a: "0 < k \<Longrightarrow> tryAttempt envOfflineFirst False k =
      (Inl (apiErrorOf 500 (Inr \<lparr>candidates = None, serviceMessage = None\<rparr>)), [OnStatus (statusMessage False k) Loading, Fetch])" for k
    by (simp add: tryAttempt_500 envOfflineFirst_def envFailing500_def failing500_def)
  have b0: "0 < MAX_ATTEMPTS CONFIG_RETRY - 1" and b1: "Suc 0 < MAX_ATTEMPTS CONFIG_RETRY - 1"
    and b2: "Suc (Suc 0) < MAX_ATTEMPTS CONFIG_RETRY"
    and e2: "\<not> isRetryableError (apiErrorOf 500 (Inr \<lparr>candidates = None, serviceMessage = None\<rparr>))
      \<or> Suc (Suc 0) = MAX_ATTEMPTS CONFIG_RETRY - 1"
    and r0: "isRetryableError (NetworkError ''You appear to be offline.'')"
    by (simp_all add: MAX_ATTEMPTS_3)
  note s0 = retryLoop_retry [OF a0 r0 b0]
  note s1 = retryLoop_retry [OF a isRetryable_apiErrorOf_500 b1, simplified]
  note s2 = retryLoop_surface [OF a b2 e2, simplified]
  have "submissions (snd (retryLoop envOfflineFirst False 0 None)) = 2"
    unfolding s0 s1 s2 after_def submissions_def by simp
  moreover have "currentImage envOfflineFirst = None" "\<not> falsy (apiKey envOfflineFirst)"
    by (simp_all add: envOfflineFirst_def envFailing500_def falsy_def)
  moreover have "transport envOfflineFirst k = Response 500 (Inr \<lparr>candidates = None, serviceMessage = None\<rparr>)" for k
    by (simp add: envOfflineFirst_def envFailing500_def failing500_def)
  ultimately show ?thesis
    using t parseWithAI_loop [of envOfflineFirst "''fever and cough''"]
    by (simp add: MAX_ATTEMPTS_3)
qed

lemma trim_Nil: "trim [] = []"
  by (simp add: trim_def)

lemma strategy1_find:
  "strategy1 ps = (case find looksLikeJson ps of Some part \<Rightarrow> part | None \<Rightarrow> None)"
proof (induction ps)
  case Nil
  show ?case by simp
next
  case (Cons p ps)
  show ?case
  proof (cases p)
    case None
    with Cons show ?thesis by (simp add: looksLikeJson_def)
  next
    case (Some t)
    have "looksLikeJson (Some t) \<Longrightarrow> t \<noteq> []"
      by (auto simp: looksLikeJson_def trim_Nil startsWith_def fenceJson_def fence_def)
    with Some Cons show ?thesis
      by (auto simp: looksLikeJson_def)
  qed
qed

lemma strategy2_find:
  "strategy2 ps = (case find containsObject ps of Some part \<Rightarrow> part | None \<Rightarrow> None)"
proof (induction ps)
  case Nil
  show ?case by simp
next
  case (Cons p ps)
  show ?case
  proof (cases p)
    case None
    with Cons show ?thesis by (simp add: containsObject_def)
  next
    case (Some t)
    have "containsObject (Some t) \<Longrightarrow> t \<noteq> []"
      by (auto simp: containsObject_def)
    with Some Cons show ?thesis
      by (auto simp: containsObject_def)
  qed
qed

lemma strategy3_last:
  "strategy3 (rev ps) = (case filter hasText ps of [] \<Rightarrow> None | p # rest \<Rightarrow> last (p # rest))"
proof (induction ps rule: rev_induct)
  case Nil
  show ?case by simp
next
  case (snoc p ps)
  then show ?case
    by (cases p) (auto simp: hasText_def split: list.splits)
qed

lemma find_looksLikeJson_Some: "find looksLikeJson ps = Some part \<Longrightarrow> \<not> falsy part"
  by (induction ps) (auto simp: looksLikeJson_def falsy_def trim_Nil startsWith_def fenceJson_def fence_def split: if_splits option.splits)

lemma find_containsObject_Some: "find containsObject ps = Some part \<Longrightarrow> \<not> falsy part"
  by (induction ps) (auto simp: containsObject_def falsy_def split: if_splits option.splits)

lemma select_parts: "selectText data = (case firstCandidateParts data of None \<Rightarrow> None | Some ps \<Rightarrow> selectSpec ps)"
proof (cases "firstCandidateParts data")
  case None
  then show ?thesis
    by (auto simp: selectText_def firstCandidateParts_def split: option.splits list.splits)
next
  case (Some ps)
  have "(let text1 = strategy1 ps;
             text2 = (if falsy text1 then strategy2 ps else text1);
             text3 = (if falsy text2 then strategy3 (rev ps) else text2)
         in text3) = selectSpec ps"
    unfolding Let_def strategy1_find strategy2_find strategy3_last selectSpec_def
    by (auto simp: falsy_def split: option.splits dest: find_looksLikeJson_Some find_containsObject_Some)
  with Some show ?thesis
    by (auto simp: selectText_def firstCandidateParts_def split: option.splits list.splits)
qed

lemma selectSpec_nonempty: "selectSpec ps = Some t \<Longrightarrow> t \<noteq> []"
proof -
  assume a: "selectSpec ps = Some t"
  show "t \<noteq> []"
  proof (cases "find looksLikeJson ps")
    case (Some part)
    with a find_looksLikeJson_Some [OF Some] show ?thesis
      by (auto simp: selectSpec_def falsy_def)
  next
    case None
    note n1 = this
    show ?thesis
    proof (cases "find containsObject ps")
      case (Some part)
      with a n1 find_containsObject_Some [OF Some] show ?thesis
        by (auto simp: selectSpec_def falsy_def)
    next
      case None
      show ?thesis
      proof (cases "filter hasText ps")
        case Nil
        with a n1 None show ?thesis
          by (simp add: selectSpec_def)
      next
        case (Cons q rest)
        then have "last (q # rest) \<in> set (filter hasText ps)"
          by (metis last_in_set list.distinct(1))
        then have "hasText (last (q # rest))"
          by simp
        moreover have "last (q # rest) = Some t"
          using a n1 None Cons by (simp add: selectSpec_def)
        ultimately show ?thesis
          by (auto simp: hasText_def trim_Nil)
      qed
    qed
  qed
qed

lemma selectText_nonempty: "selectText data = Some t \<Longrightarrow> t \<noteq> []"
  by (auto simp: select_parts split: option.splits dest: selectSpec_nonempty)

text \<open>
  C6. The three loops of \<open>parseWithAI\<close> over the parts of the first candidate select the
  text that the specification describes: the first part whose trimmed text starts with
  \<open>{\<close> or with the JSON fence marker, else the first part whose text contains both \<open>{\<close> and
  \<open>}\<close>, else the last part whose trimmed text is not empty. On a successful response, when
  no part yields a text the attempt throws the empty-response error, which is not
  retryable; else the attempt goes on with the selected text.
\<close>

theorem payload_selection:
  "selectText data = (case firstCandidateParts data of None \<Rightarrow> None | Some ps \<Rightarrow> selectSpec ps)
   \<and> (online env k \<and> transport env k = Response status (Inr data) \<and> responseOk status \<longrightarrow>
        (case selectText data of
           None \<Rightarrow> fst (tryAttempt env h k) = Inl EMPTY_RESPONSE
         | Some text \<Rightarrow>
             fst (tryAttempt env h k) =
               (case JSON_parse (extractJsonFromText text) of
                  None \<Rightarrow> Inl (JsError ''SyntaxError'' (parseErrorMessage env (extractJsonFromText text)))
                | Some parsed \<Rightarrow> Inr parsed)))
   \<and> \<not> isRetryableError EMPTY_RESPONSE"
proof (intro conjI impI)
  show "selectText data = (case firstCandidateParts data of None \<Rightarrow> None | Some ps \<Rightarrow> selectSpec ps)"
    by (rule select_parts)
  show "\<not> isRetryableError EMPTY_RESPONSE"
    by (simp add: EMPTY_RESPONSE_def)
  assume a: "online env k \<and> transport env k = Response status (Inr data) \<and> responseOk status"
  show "case selectText data of
           None \<Rightarrow> fst (tryAttempt env h k) = Inl EMPTY_RESPONSE
         | Some text \<Rightarrow>
             fst (tryAttempt env h k) =
               (case JSON_parse (extractJsonFromText text) of
                  None \<Rightarrow> Inl (JsError ''SyntaxError'' (parseErrorMessage env (extractJsonFromText text)))
                | Some parsed \<Rightarrow> Inr parsed)"
  proof (cases "selectText data")
    case None
    with a show ?thesis
      by (simp add: tryAttempt_def)
  next
    case (Some t)
    with a selectText_nonempty [OF Some] show ?thesis
      by (simp add: tryAttempt_def split: option.splits)
  qed
qed

theorem payload_selection_witness:
  "online envTwoParts 0 \<and> transport envTwoParts 0 = Response 200 (Inr twoParts) \<and> responseOk 200
   \<and> selectText twoParts = Some '' {\"a\": 1}''
   \<and> fst (tryAttempt envTwoParts False 0) = Inr (JObject [(''a'', JNumber ''1'')])"
proof -
  have a: "online envTwoParts 0 \<and> transport envTwoParts 0 = Response 200 (Inr twoParts) \<and> responseOk 200"
    by (simp add: envTwoParts_def envFailing500_def responseOk_def)
  have s: "selectText twoParts = Some '' {\"a\": 1}''"
    by code_simp
  have p: "JSON_parse (extractJsonFromText '' {\"a\": 1}'') = Some (JObject [(''a'', JNumber ''1'')])"
    by code_simp
  from a payload_selection [of twoParts envTwoParts 0 200 False]
  have "case selectText twoParts of
           None \<Rightarrow> fst (tryAttempt envTwoParts False 0) = Inl EMPTY_RESPONSE
         | Some text \<Rightarrow>
             fst (tryAttempt envTwoParts False 0) =
               (case JSON_parse (extractJsonFromText text) of
                  None \<Rightarrow> Inl (JsError ''SyntaxError'' (parseErrorMessage envTwoParts (extractJsonFromText text)))
                | Some parsed \<Rightarrow> Inr parsed)"
    by blast
  then have "fst (tryAttempt envTwoParts False 0) = Inr (JObject [(''a'', JNumber ''1'')])"
    by (simp only: s p option.case)
  with a s show ?thesis
    by blast
qed

text \<open>
  C7. When no credential is stored, or when the input text is empty or white space and no
  image is held, \<open>parseWithAI\<close> returns \<open>null\<close> at once. The TypeScript module reports the
  validation message as an error status; the JavaScript module, which has no image input,
  reports it as an error status and passes the \<open>ValidationError\<close> to \<open>onError\<close>. Neither
  submits anything to the transport or suspends.
\<close>

theorem validation_failure:
  "falsy (apiKey env) \<or> (trim inputText = [] \<and> currentImage env = None) \<longrightarrow>
     parseWithAI env inputText =
       (Resolved None,
        [OnStatus (if falsy (apiKey env) then ''Please enter your Gemini API key first.''
                   else ''Please enter some notes or upload an image to parse.'') ErrorStatus])
     \<and> parseWithAIJs env inputText =
       (Resolved None,
        [OnStatus (if falsy (apiKey env) then ''Please enter your Gemini API key first.''
                   else ''Please enter some notes to parse.'') ErrorStatus,
         OnError (Some (ValidationError
                    (if falsy (apiKey env) then ''Please enter your Gemini API key first.''
                     else ''Please enter some notes to parse.'')
                    (Some (if falsy (apiKey env) then ''apiKey'' else ''inputText''))))])
     \<and> submissions (snd (parseWithAI env inputText)) = 0
     \<and> submissions (snd (parseWithAIJs env inputText)) = 0
     \<and> effects (snd (parseWithAI env inputText)) = []"
  by (auto simp: parseWithAI_def parseWithAIJs_def validateInputs_def Let_def submissions_def effects_def)

theorem validation_failure_witness:
  "falsy (apiKey envNoKey)
   \<and> parseWithAI envNoKey ''fever and cough'' =
       (Resolved None, [OnStatus ''Please enter your Gemini API key first.'' ErrorStatus])
   \<and> parseWithAIJs envNoKey ''fever and cough'' =
       (Resolved None,
        [OnStatus ''Please enter your Gemini API key first.'' ErrorStatus,
         OnError (Some (ValidationError ''Please enter your Gemini API key first.'' (Some ''apiKey'')))])
   \<and> trim ''  '' = [] \<and> currentImage envFailing500 = None
   \<and> parseWithAI envFailing500 ''  '' =
       (Resolved None, [OnStatus ''Please enter some notes or upload an image to parse.'' ErrorStatus])"
proof -
  have k: "falsy (apiKey envNoKey)" "\<not> falsy (apiKey envFailing500)"
    by (simp_all add: envNoKey_def envFailing500_def falsy_def)
  have t: "trim ''  '' = []"
    by code_simp
  have i: "currentImage envFailing500 = None"
    by (simp add: envFailing500_def)
  from k t i validation_failure [of envNoKey "''fever and cough''"]
    validation_failure [of envFailing500 "''  ''"]
  show ?thesis
    by simp
qed

lemma tryAttempt_no_OnError: "\<not> list_ex isOnError (snd (tryAttempt env h k))"
  by (auto simp: tryAttempt_def Let_def split: fetchOutcome.splits sum.splits option.splits)

lemma retryLoop_decides:
  assumes "a < MAX_ATTEMPTS CONFIG_RETRY"
  shows "\<exists>k. a \<le> k \<and> k < MAX_ATTEMPTS CONFIG_RETRY
      \<and> (\<forall>j. a \<le> j \<and> j < k \<longrightarrow> retryableFailure (fst (tryAttempt env h j)))
      \<and> (case fst (tryAttempt env h k) of
           Inr parsed \<Rightarrow>
             fst (retryLoop env h a le) = Some parsed \<and> \<not> list_ex isOnError (snd (retryLoop env h a le))
         | Inl e \<Rightarrow>
             (\<not> isRetryableError e \<or> k = MAX_ATTEMPTS CONFIG_RETRY - 1)
             \<and> fst (retryLoop env h a le) = None
             \<and> (\<exists>before. snd (retryLoop env h a le) =
                   before @ [OnStatus (getErrorMessage (Some e) (onlineAtReport env)) ErrorStatus, OnError (Some e)]
                   \<and> \<not> list_ex isOnError before))"
  using assms
proof (induction "MAX_ATTEMPTS CONFIG_RETRY - a" arbitrary: a le)
  case 0
  then show ?case by simp
next
  case (Suc n)
  obtain x evs where t: "tryAttempt env h a = (x, evs)"
    by (cases "tryAttempt env h a")
  have nd: "\<not> list_ex isOnError evs"
    using tryAttempt_no_OnError [of env h a] t by simp
  show ?case
  proof (cases x)
    case (Inr parsed)
    with t Suc.prems retryLoop_success [of env h a parsed evs le] nd show ?thesis
      by (intro exI [of _ a]) auto
  next
    case (Inl e)
    show ?thesis
    proof (cases "isRetryableError e \<and> a < MAX_ATTEMPTS CONFIG_RETRY - 1")
      case False
      then have "\<not> isRetryableError e \<or> a = MAX_ATTEMPTS CONFIG_RETRY - 1"
        using Suc.prems by auto
      with t Inl Suc.prems retryLoop_surface [of env h a e evs le] nd show ?thesis
        by (intro exI [of _ a]) auto
    next
      case True
      then have next_ok: "Suc a < MAX_ATTEMPTS CONFIG_RETRY" and m: "n = MAX_ATTEMPTS CONFIG_RETRY - Suc a"
        using Suc.hyps(2) by auto
      from Suc.hyps(1) [OF m next_ok, of "Some e"]
      obtain k where k: "Suc a \<le> k" "k < MAX_ATTEMPTS CONFIG_RETRY"
        "\<forall>j. Suc a \<le> j \<and> j < k \<longrightarrow> retryableFailure (fst (tryAttempt env h j))"
        "case fst (tryAttempt env h k) of
           Inr parsed \<Rightarrow>
             fst (retryLoop env h (Suc a) (Some e)) = Some parsed
             \<and> \<not> list_ex isOnError (snd (retryLoop env h (Suc a) (Some e)))
         | Inl e' \<Rightarrow>
             (\<not> isRetryableError e' \<or> k = MAX_ATTEMPTS CONFIG_RETRY - 1)
             \<and> fst (retryLoop env h (Suc a) (Some e)) = None
             \<and> (\<exists>before. snd (retryLoop env h (Suc a) (Some e)) =
                   before @ [OnStatus (getErrorMessage (Some e') (onlineAtReport env)) ErrorStatus, OnError (Some e')]
                   \<and> \<not> list_ex isOnError before)"
        by blast
      have step: "retryLoop env h a le =
          after (evs @
            [OnStatus (''Rate limited. Retrying in ''
                      @ roundText (arith env) (quot (arith env) (calculateRetryDelay (arith env) a CONFIG_RETRY (random env a)) (Finite 1000))
                      @ '' seconds...'') Loading,
             Sleep (calculateRetryDelay (arith env) a CONFIG_RETRY (random env a))])
            (retryLoop env h (Suc a) (Some e))"
        using retryLoop_retry [of env h a e evs le] t Inl True by simp
      have prev: "\<forall>j. a \<le> j \<and> j < k \<longrightarrow> retryableFailure (fst (tryAttempt env h j))"
      proof (intro allI impI)
        fix j assume j: "a \<le> j \<and> j < k"
        show "retryableFailure (fst (tryAttempt env h j))"
        proof (cases "j = a")
          case True
          with t Inl \<open>isRetryableError e \<and> a < MAX_ATTEMPTS CONFIG_RETRY - 1\<close> show ?thesis by simp
        next
          case False
          with j k(3) show ?thesis by auto
        qed
      qed
      show ?thesis
      proof (cases "fst (tryAttempt env h k)")
        case (Inr parsed)
        with k(4) nd have "fst (retryLoop env h a le) = Some parsed
            \<and> \<not> list_ex isOnError (snd (retryLoop env h a le))"
          unfolding step after_def by (auto simp: list_ex_iff)
        with k(1,2) prev Inr show ?thesis
          by (intro exI [of _ k]) auto
      next
        case (Inl e')
        with k(4) obtain before where b: "\<not> isRetryableError e' \<or> k = MAX_ATTEMPTS CONFIG_RETRY - 1"
          "fst (retryLoop env h (Suc a) (Some e)) = None"
          "snd (retryLoop env h (Suc a) (Some e)) =
             before @ [OnStatus (getErrorMessage (Some e') (onlineAtReport env)) ErrorStatus, OnError (Some e')]"
          "\<not> list_ex isOnError before"
          by auto
        let ?b = "evs @
            [OnStatus (''Rate limited. Retrying in ''
                      @ roundText (arith env) (quot (arith env) (calculateRetryDelay (arith env) a CONFIG_RETRY (random env a)) (Finite 1000))
                      @ '' seconds...'') Loading,
             Sleep (calculateRetryDelay (arith env) a CONFIG_RETRY (random env a))] @ before"
        have "snd (retryLoop env h a le) =
            ?b @ [OnStatus (getErrorMessage (Some e') (onlineAtReport env)) ErrorStatus, OnError (Some e')]"
          unfolding step after_def using b(3) by simp
        moreover have "\<not> list_ex isOnError ?b"
          using nd b(4) by (auto simp: list_ex_iff)
        moreover have "fst (retryLoop env h a le) = None"
          unfolding step after_def using b(2) by simp
        ultimately show ?thesis
          using k(1,2) prev Inl b(1) by (intro exI [of _ k]) auto
      qed
    qed
  qed
qed


lemma retryLoopJs_retry:
  assumes "tryAttemptJs env k = (Inl e, done)" and "isRetryableError e"
    and "k < MAX_ATTEMPTS CONFIG_RETRY - 1"
  shows "retryLoopJs env k le =
     after (done @
            [OnStatus ((if kindOf e = NetworkKind then ''Connection issue'' else ''Rate limited'')
                      @ ''. Retrying in ''
                      @ roundText (arith env) (quot (arith env) (calculateRetryDelay (arith env) k CONFIG_RETRY (random env k)) (Finite 1000))
                      @ '' seconds...'') Loading,
             Sleep (calculateRetryDelay (arith env) k CONFIG_RETRY (random env k))])
       (retryLoopJs env (Suc k) (Some e))"
proof -
  have "k < MAX_ATTEMPTS CONFIG_RETRY"
    using assms(3) by arith
  with assms show ?thesis
    by (subst retryLoopJs.simps) simp
qed

lemma retryLoopJs_surface:
  assumes "tryAttemptJs env k = (Inl e, done)" and "k < MAX_ATTEMPTS CONFIG_RETRY"
    and "\<not> isRetryableError e \<or> k = MAX_ATTEMPTS CONFIG_RETRY - 1"
  shows "retryLoopJs env k le =
     (Resolved None, done @ [OnStatus (getErrorMessageJs e (onlineAtReport env)) ErrorStatus, OnError (Some e)])"
  using assms by (subst retryLoopJs.simps) (auto simp: reportFailureJs_def)

lemma retryLoopJs_success:
  assumes "tryAttemptJs env k = (Inr parsed, done)" and "k < MAX_ATTEMPTS CONFIG_RETRY"
  shows "retryLoopJs env k le = (Resolved (Some parsed), done)"
  using assms by (subst retryLoopJs.simps) simp

lemma makeApiRequest_events: "snd (makeApiRequest env k) = [] \<or> snd (makeApiRequest env k) = [Fetch]"
  by (auto simp: makeApiRequest_def split: fetchOutcome.splits sum.splits)

lemma tryAttemptJs_no_OnError: "\<not> list_ex isOnError (snd (tryAttemptJs env k))"
  using makeApiRequest_events [of env k]
  by (cases "makeApiRequest env k") (auto simp: tryAttemptJs_def Let_def split: sum.splits)

lemma retryLoopJs_decides:
  assumes "a < MAX_ATTEMPTS CONFIG_RETRY"
  shows "\<exists>k. a \<le> k \<and> k < MAX_ATTEMPTS CONFIG_RETRY
      \<and> (\<forall>j. a \<le> j \<and> j < k \<longrightarrow> retryableFailure (fst (tryAttemptJs env j)))
      \<and> (case fst (tryAttemptJs env k) of
           Inr parsed \<Rightarrow>
             fst (retryLoopJs env a le) = Resolved (Some parsed) \<and> \<not> list_ex isOnError (snd (retryLoopJs env a le))
         | Inl e \<Rightarrow>
             (\<not> isRetryableError e \<or> k = MAX_ATTEMPTS CONFIG_RETRY - 1)
             \<and> fst (retryLoopJs env a le) = Resolved None
             \<and> (\<exists>before. snd (retryLoopJs env a le) =
                   before @ [OnStatus (getErrorMessageJs e (onlineAtReport env)) ErrorStatus, OnError (Some e)]
                   \<and> \<not> list_ex isOnError before))"
  using assms
proof (induction "MAX_ATTEMPTS CONFIG_RETRY - a" arbitrary: a le)
  case 0
  then show ?case by simp
next
  case (Suc n)
  obtain x evs where t: "tryAttemptJs env a = (x, evs)"
    by (cases "tryAttemptJs env a")
  have nd: "\<not> list_ex isOnError evs"
    using tryAttemptJs_no_OnError [of env a] t by simp
  show ?case
  proof (cases x)
    case (Inr parsed)
    with t Suc.prems retryLoopJs_success [of env a parsed evs le] nd show ?thesis
      by (intro exI [of _ a]) auto
  next
    case (Inl e)
    show ?thesis
    proof (cases "isRetryableError e \<and> a < MAX_ATTEMPTS CONFIG_RETRY - 1")
      case False
      then have "\<not> isRetryableError e \<or> a = MAX_ATTEMPTS CONFIG_RETRY - 1"
        using Suc.prems by auto
      with t Inl Suc.prems retryLoopJs_surface [of env a e evs le] nd show ?thesis
        by (intro exI [of _ a]) auto
    next
      case True
      then have next_ok: "Suc a < MAX_ATTEMPTS CONFIG_RETRY" and m: "n = MAX_ATTEMPTS CONFIG_RETRY - Suc a"
        using Suc.hyps(2) by auto
      from Suc.hyps(1) [OF m next_ok, of "Some e"]
      obtain k where k: "Suc a \<le> k" "k < MAX_ATTEMPTS CONFIG_RETRY"
        "\<forall>j. Suc a \<le> j \<and> j < k \<longrightarrow> retryableFailure (fst (tryAttemptJs env j))"
        "case fst (tryAttemptJs env k) of
           Inr parsed \<Rightarrow>
             fst (retryLoopJs env (Suc a) (Some e)) = Resolved (Some parsed)
             \<and> \<not> list_ex isOnError (snd (retryLoopJs env (Suc a) (Some e)))
         | Inl e' \<Rightarrow>
             (\<not> isRetryableError e' \<or> k = MAX_ATTEMPTS CONFIG_RETRY - 1)
             \<and> fst (retryLoopJs env (Suc a) (Some e)) = Resolved None
             \<and> (\<exists>before. snd (retryLoopJs env (Suc a) (Some e)) =
                   before @ [OnStatus (getErrorMessageJs e' (onlineAtReport env)) ErrorStatus, OnError (Some e')]
                   \<and> \<not> list_ex isOnError before)"
        by blast
      have step: "retryLoopJs env a le =
          after (evs @
            [OnStatus ((if kindOf e = NetworkKind then ''Connection issue'' else ''Rate limited'') @ ''. Retrying in ''
                      @ roundText (arith env) (quot (arith env) (calculateRetryDelay (arith env) a CONFIG_RETRY (random env a)) (Finite 1000))
                      @ '' seconds...'') Loading,
             Sleep (calculateRetryDelay (arith env) a CONFIG_RETRY (random env a))])
            (retryLoopJs env (Suc a) (Some e))"
        using retryLoopJs_retry [of env a e evs le] t Inl True by simp
      have prev: "\<forall>j. a \<le> j \<and> j < k \<longrightarrow> retryableFailure (fst (tryAttemptJs env j))"
      proof (intro allI impI)
        fix j assume j: "a \<le> j \<and> j < k"
        show "retryableFailure (fst (tryAttemptJs env j))"
        proof (cases "j = a")
          case True
          with t Inl \<open>isRetryableError e \<and> a < MAX_ATTEMPTS CONFIG_RETRY - 1\<close> show ?thesis by simp
        next
          case False
          with j k(3) show ?thesis by auto
        qed
      qed
      show ?thesis
      proof (cases "fst (tryAttemptJs env k)")
        case (Inr parsed)
        with k(4) nd have "fst (retryLoopJs env a le) = Resolved (Some parsed)
            \<and> \<not> list_ex isOnError (snd (retryLoopJs env a le))"
          unfolding step after_def by (auto simp: list_ex_iff)
        with k(1,2) prev Inr show ?thesis
          by (intro exI [of _ k]) auto
      next
        case (Inl e')
        with k(4) obtain before where b: "\<not> isRetryableError e' \<or> k = MAX_ATTEMPTS CONFIG_RETRY - 1"
          "fst (retryLoopJs env (Suc a) (Some e)) = Resolved None"
          "snd (retryLoopJs env (Suc a) (Some e)) =
             before @ [OnStatus (getErrorMessageJs e' (onlineAtReport env)) ErrorStatus, OnError (Some e')]"
          "\<not> list_ex isOnError before"
          by auto
        let ?b = "evs @
            [OnStatus ((if kindOf e = NetworkKind then ''Connection issue'' else ''Rate limited'') @ ''. Retrying in ''
                      @ roundText (arith env) (quot (arith env) (calculateRetryDelay (arith env) a CONFIG_RETRY (random env a)) (Finite 1000))
                      @ '' seconds...'') Loading,
             Sleep (calculateRetryDelay (arith env) a CONFIG_RETRY (random env a))] @ before"
        have "snd (retryLoopJs env a le) =
            ?b @ [OnStatus (getErrorMessageJs e' (onlineAtReport env)) ErrorStatus, OnError (Some e')]"
          unfolding step after_def using b(3) by simp
        moreover have "\<not> list_ex isOnError ?b"
          using nd b(4) by (auto simp: list_ex_iff)
        moreover have "fst (retryLoopJs env a le) = Resolved None"
          unfolding step after_def using b(2) by simp
        ultimately show ?thesis
          using k(1,2) prev Inl b(1) by (intro exI [of _ k]) auto
      qed
    qed
  qed
qed



lemma parseWithAIJs_loop:
  assumes "\<not> falsy (apiKey env)" and "trim inputText \<noteq> []"
  shows "parseWithAIJs env inputText = retryLoopJs env 0 None"
  using assms by (auto simp: parseWithAIJs_def validateInputs_def trim_Nil)

text \<open>
  C8 (as amended). With a credential and a non-empty input, every error thrown in an attempt
  is caught in that attempt, and the promise of \<open>parseWithAI\<close> always resolves. There is a
  deciding attempt \<open>k\<close> below \<open>MAX_ATTEMPTS\<close>: every attempt before it failed with a
  retryable error, none of which was passed to \<open>onError\<close>. Either attempt \<open>k\<close> succeeds, and
  the promise resolves with its data and \<open>onError\<close> is never called; or it fails with an
  error that is not retryable or is the last attempt allowed, and then the call ends with
  the error status for that error and \<open>onError\<close> of that error, and the promise resolves
  with \<open>null\<close>. This holds of both implementations.
\<close>

theorem failure_propagation:
  assumes cred: "\<not> falsy (apiKey env)" and input: "trim inputText \<noteq> []"
  shows "(\<exists>k. k < MAX_ATTEMPTS CONFIG_RETRY
        \<and> (\<forall>j. j < k \<longrightarrow> retryableFailure (fst (tryAttempt env (currentImage env \<noteq> None) j)))
        \<and> (case fst (tryAttempt env (currentImage env \<noteq> None) k) of
             Inr parsed \<Rightarrow>
               fst (parseWithAI env inputText) = Resolved (Some parsed)
               \<and> \<not> list_ex isOnError (snd (parseWithAI env inputText))
           | Inl e \<Rightarrow>
               (\<not> isRetryableError e \<or> k = MAX_ATTEMPTS CONFIG_RETRY - 1)
               \<and> fst (parseWithAI env inputText) = Resolved None
               \<and> (\<exists>before. snd (parseWithAI env inputText) =
                     before @ [OnStatus (getErrorMessage (Some e) (onlineAtReport env)) ErrorStatus, OnError (Some e)]
                     \<and> \<not> list_ex isOnError before)))
    \<and> (\<exists>k. k < MAX_ATTEMPTS CONFIG_RETRY
        \<and> (\<forall>j. j < k \<longrightarrow> retryableFailure (fst (tryAttemptJs env j)))
        \<and> (case fst (tryAttemptJs env k) of
             Inr parsed \<Rightarrow>
               fst (parseWithAIJs env inputText) = Resolved (Some parsed)
               \<and> \<not> list_ex isOnError (snd (parseWithAIJs env inputText))
           | Inl e \<Rightarrow>
               (\<not> isRetryableError e \<or> k = MAX_ATTEMPTS CONFIG_RETRY - 1)
               \<and> fst (parseWithAIJs env inputText) = Resolved None
               \<and> (\<exists>before. snd (parseWithAIJs env inputText) =
                     before @ [OnStatus (getErrorMessageJs e (onlineAtReport env)) ErrorStatus, OnError (Some e)]
                     \<and> \<not> list_ex isOnError before)))"
proof -
  define h where "h = (currentImage env \<noteq> None)"
  have m: "0 < MAX_ATTEMPTS CONFIG_RETRY"
    by (simp add: MAX_ATTEMPTS_3)
  have ts: "parseWithAI env inputText = (Resolved (fst (retryLoop env h 0 None)), snd (retryLoop env h 0 None))"
    unfolding h_def using cred input by (intro parseWithAI_loop) auto
  have js: "parseWithAIJs env inputText = retryLoopJs env 0 None"
    using cred input by (rule parseWithAIJs_loop)
  from retryLoop_decides [OF m, of env h None]
  obtain k where k: "k < MAX_ATTEMPTS CONFIG_RETRY"
    "\<forall>j. 0 \<le> j \<and> j < k \<longrightarrow> retryableFailure (fst (tryAttempt env h j))"
    "case fst (tryAttempt env h k) of
       Inr parsed \<Rightarrow>
         fst (retryLoop env h 0 None) = Some parsed \<and> \<not> list_ex isOnError (snd (retryLoop env h 0 None))
     | Inl e \<Rightarrow>
         (\<not> isRetryableError e \<or> k = MAX_ATTEMPTS CONFIG_RETRY - 1)
         \<and> fst (retryLoop env h 0 None) = None
         \<and> (\<exists>before. snd (retryLoop env h 0 None) =
               before @ [OnStatus (getErrorMessage (Some e) (onlineAtReport env)) ErrorStatus, OnError (Some e)]
               \<and> \<not> list_ex isOnError before)"
    by blast
  have first: "\<exists>k. k < MAX_ATTEMPTS CONFIG_RETRY
        \<and> (\<forall>j. j < k \<longrightarrow> retryableFailure (fst (tryAttempt env h j)))
        \<and> (case fst (tryAttempt env h k) of
             Inr parsed \<Rightarrow>
               fst (parseWithAI env inputText) = Resolved (Some parsed)
               \<and> \<not> list_ex isOnError (snd (parseWithAI env inputText))
           | Inl e \<Rightarrow>
               (\<not> isRetryableError e \<or> k = MAX_ATTEMPTS CONFIG_RETRY - 1)
               \<and> fst (parseWithAI env inputText) = Resolved None
               \<and> (\<exists>before. snd (parseWithAI env inputText) =
                     before @ [OnStatus (getErrorMessage (Some e) (onlineAtReport env)) ErrorStatus, OnError (Some e)]
                     \<and> \<not> list_ex isOnError before))"
  proof (intro exI [of _ k] conjI)
    show "k < MAX_ATTEMPTS CONFIG_RETRY"
      by fact
    show "\<forall>j. j < k \<longrightarrow> retryableFailure (fst (tryAttempt env h j))"
      using k(2) by simp
    show "case fst (tryAttempt env h k) of
             Inr parsed \<Rightarrow>
               fst (parseWithAI env inputText) = Resolved (Some parsed)
               \<and> \<not> list_ex isOnError (snd (parseWithAI env inputText))
           | Inl e \<Rightarrow>
               (\<not> isRetryableError e \<or> k = MAX_ATTEMPTS CONFIG_RETRY - 1)
               \<and> fst (parseWithAI env inputText) = Resolved None
               \<and> (\<exists>before. snd (parseWithAI env inputText) =
                     before @ [OnStatus (getErrorMessage (Some e) (onlineAtReport env)) ErrorStatus, OnError (Some e)]
                     \<and> \<not> list_ex isOnError before)"
      using k(3) unfolding ts by (cases "fst (tryAttempt env h k)") simp_all
  qed
  from retryLoopJs_decides [OF m, of env None]
  obtain k' where k': "k' < MAX_ATTEMPTS CONFIG_RETRY"
    "\<forall>j. 0 \<le> j \<and> j < k' \<longrightarrow> retryableFailure (fst (tryAttemptJs env j))"
    "case fst (tryAttemptJs env k') of
       Inr parsed \<Rightarrow>
         fst (retryLoopJs env 0 None) = Resolved (Some parsed) \<and> \<not> list_ex isOnError (snd (retryLoopJs env 0 None))
     | Inl e \<Rightarrow>
         (\<not> isRetryableError e \<or> k' = MAX_ATTEMPTS CONFIG_RETRY - 1)
         \<and> fst (retryLoopJs env 0 None) = Resolved None
         \<and> (\<exists>before. snd (retryLoopJs env 0 None) =
               before @ [OnStatus (getErrorMessageJs e (onlineAtReport env)) ErrorStatus, OnError (Some e)]
               \<and> \<not> list_ex isOnError before)"
    by blast
  have second: "\<exists>k. k < MAX_ATTEMPTS CONFIG_RETRY
        \<and> (\<forall>j. j < k \<longrightarrow> retryableFailure (fst (tryAttemptJs env j)))
        \<and> (case fst (tryAttemptJs env k) of
             Inr parsed \<Rightarrow>
               fst (parseWithAIJs env inputText) = Resolved (Some parsed)
               \<and> \<not> list_ex isOnError (snd (parseWithAIJs env inputText))
           | Inl e \<Rightarrow>
               (\<not> isRetryableError e \<or> k = MAX_ATTEMPTS CONFIG_RETRY - 1)
               \<and> fst (parseWithAIJs env inputText) = Resolved None
               \<and> (\<exists>before. snd (parseWithAIJs env inputText) =
                     before @ [OnStatus (getErrorMessageJs e (onlineAtReport env)) ErrorStatus, OnError (Some e)]
                     \<and> \<not> list_ex isOnError before))"
  proof (intro exI [of _ k'] conjI)
    show "k' < MAX_ATTEMPTS CONFIG_RETRY"
      by fact
    show "\<forall>j. j < k' \<longrightarrow> retryableFailure (fst (tryAttemptJs env j))"
      using k'(2) by simp
    show "case fst (tryAttemptJs env k') of
             Inr parsed \<Rightarrow>
               fst (parseWithAIJs env inputText) = Resolved (Some parsed)
               \<and> \<not> list_ex isOnError (snd (parseWithAIJs env inputText))
           | Inl e \<Rightarrow>
               (\<not> isRetryableError e \<or> k' = MAX_ATTEMPTS CONFIG_RETRY - 1)
               \<and> fst (parseWithAIJs env inputText) = Resolved None
               \<and> (\<exists>before. snd (parseWithAIJs env inputText) =
                     before @ [OnStatus (getErrorMessageJs e (onlineAtReport env)) ErrorStatus, OnError (Some e)]
                     \<and> \<not> list_ex isOnError before)"
      using k'(3) unfolding js .
  qed
  from first second show ?thesis
    unfolding h_def by (rule conjI)
qed

lemma tryAttempt_unauthorized:
  "tryAttempt envUnauthorized h k =
     (Inl (ApiError ''API key not valid'' 401), [OnStatus (statusMessage h k) Loading, Fetch])"
  by (simp add: tryAttempt_def envUnauthorized_def envFailing500_def unauthorized_def responseOk_def
      apiErrorOf_def orElse_def)

theorem failure_propagation_witness:
  "\<not> falsy (apiKey envUnauthorized) \<and> trim ''fever and cough'' \<noteq> []
   \<and> fst (parseWithAI envUnauthorized ''fever and cough'') = Resolved None
   \<and> last (snd (parseWithAI envUnauthorized ''fever and cough'')) = OnError (Some (ApiError ''API key not valid'' 401))"
proof -
  have c: "\<not> falsy (apiKey envUnauthorized)"
    by (simp add: envUnauthorized_def envFailing500_def falsy_def)
  have i: "trim ''fever and cough'' \<noteq> []"
    by code_simp
  have h: "(currentImage envUnauthorized \<noteq> None) = False"
    by (simp add: envUnauthorized_def envFailing500_def)
  from failure_propagation [OF c i]
  obtain k where k: "\<forall>j. j < k \<longrightarrow> retryableFailure (fst (tryAttempt envUnauthorized False j))"
    and r: "case fst (tryAttempt envUnauthorized False k) of
             Inr parsed \<Rightarrow>
               fst (parseWithAI envUnauthorized ''fever and cough'') = Resolved (Some parsed)
               \<and> \<not> list_ex isOnError (snd (parseWithAI envUnauthorized ''fever and cough''))
           | Inl e \<Rightarrow>
               (\<not> isRetryableError e \<or> k = MAX_ATTEMPTS CONFIG_RETRY - 1)
               \<and> fst (parseWithAI envUnauthorized ''fever and cough'') = Resolved None
               \<and> (\<exists>before. snd (parseWithAI envUnauthorized ''fever and cough'') =
                     before @ [OnStatus (getErrorMessage (Some e) (onlineAtReport envUnauthorized)) ErrorStatus, OnError (Some e)]
                     \<and> \<not> list_ex isOnError before)"
    unfolding h by blast
  from r have "fst (parseWithAI envUnauthorized ''fever and cough'') = Resolved None
      \<and> last (snd (parseWithAI envUnauthorized ''fever and cough'')) = OnError (Some (ApiError ''API key not valid'' 401))"
    by (auto simp: tryAttempt_unauthorized)
  with c i show ?thesis
    by blast
qed

text \<open>
  C8 as stated fails: the failure does not reach the caller through a rejection. With a
  transport that answers 401, which is not retryable, both implementations report the error
  through the callbacks, and the promise resolves with \<open>null\<close>.
\<close>

theorem failure_propagation_counterexample:
  "\<not> isRetryableError (ApiError ''API key not valid'' 401)
   \<and> parseWithAI envUnauthorized ''fever and cough'' =
       (Resolved None,
        [OnStatus ''Parsing with AI... This may take a few seconds.'' Loading, Fetch,
         OnStatus ''Invalid API key. Please check your Gemini API key.'' ErrorStatus,
         OnError (Some (ApiError ''API key not valid'' 401))])
   \<and> parseWithAIJs envUnauthorized ''fever and cough'' =
       (Resolved None,
        [OnStatus ''Sending to AI...'' Loading, Fetch,
         OnStatus ''Invalid API key. Please check your Gemini API key.'' ErrorStatus,
         OnError (Some (ApiError ''API key not valid'' 401))])"
proof -
  have c: "\<not> falsy (apiKey envUnauthorized)"
    by (simp add: envUnauthorized_def envFailing500_def falsy_def)
  have i: "trim ''fever and cough'' \<noteq> []"
    by code_simp
  have h: "(currentImage envUnauthorized \<noteq> None) = False"
    by (simp add: envUnauthorized_def envFailing500_def)
  have b: "0 < MAX_ATTEMPTS CONFIG_RETRY"
    by (simp add: MAX_ATTEMPTS_3)
  have n: "\<not> isRetryableError (ApiError ''API key not valid'' 401) \<or> 0 = MAX_ATTEMPTS CONFIG_RETRY - 1"
    by simp
  have ts: "retryLoop envUnauthorized False 0 None =
      (None,
        [OnStatus ''Parsing with AI... This may take a few seconds.'' Loading, Fetch,
         OnStatus ''Invalid API key. Please check your Gemini API key.'' ErrorStatus,
         OnError (Some (ApiError ''API key not valid'' 401))])"
    unfolding retryLoop_surface [OF tryAttempt_unauthorized b n]
    by (simp add: statusMessage_def ERROR_MESSAGES_def)
  have tj: "tryAttemptJs envUnauthorized 0 =
      (Inl (ApiError ''API key not valid'' 401), [OnStatus ''Sending to AI...'' Loading, Fetch])"
    by (simp add: tryAttemptJs_def makeApiRequest_def envUnauthorized_def envFailing500_def
        unauthorized_def responseOk_def apiErrorOfJs_def orElse_def rethrow_def)
  have m: "getErrorMessageJs (ApiError ''API key not valid'' 401) b = ''Invalid API key. Please check your Gemini API key.''" for b
    by code_simp
  have js: "retryLoopJs envUnauthorized 0 None =
      (Resolved None,
        [OnStatus ''Sending to AI...'' Loading, Fetch,
         OnStatus ''Invalid API key. Please check your Gemini API key.'' ErrorStatus,
         OnError (Some (ApiError ''API key not valid'' 401))])"
    unfolding retryLoopJs_surface [OF tj b n] m
    by simp
  have "parseWithAI envUnauthorized ''fever and cough'' =
      (Resolved (fst (retryLoop envUnauthorized False 0 None)), snd (retryLoop envUnauthorized False 0 None))"
    using parseWithAI_loop [OF c, of "''fever and cough''"] i unfolding h by blast
  then show ?thesis
    unfolding ts parseWithAIJs_loop [OF c i] js by simp
qed

section \<open>Properties of the classification\<close>

lemma rethrow_fetchFailure: "rethrow fetchFailure True = unreachable"
  unfolding fetchFailure_def unreachable_def by code_simp

lemma tryAttempt_fetchRejects:
  "tryAttempt envFetchRejects False k = (Inl fetchFailure, [OnStatus (statusMessage False k) Loading, Fetch])"
  by (simp add: tryAttempt_def envFetchRejects_def envFailing500_def)

lemma tryAttemptJs_fetchRejects:
  "tryAttemptJs envFetchRejects k =
     (Inl unreachable,
      [OnStatus (if k = 0 then ''Sending to AI...''
                 else ''Retrying... (attempt '' @ showNat (k + 1) @ ''/'' @ showNat (MAX_ATTEMPTS CONFIG_RETRY) @ '')'') Loading,
       Fetch])"
  by (simp add: tryAttemptJs_def makeApiRequest_def envFetchRejects_def envFailing500_def
      rethrow_fetchFailure)

text \<open>
  C3. \<open>isRetryableError\<close> decides by the class of the error and its status code alone: it
  is true exactly for a \<open>NetworkError\<close> and for an \<open>ApiError\<close> whose status code is 429,
  500, 502 or 503; the attempt count is no argument of it. A failure of the transport,
  however, does not reach it as a \<open>NetworkError\<close> in the TypeScript orchestrator: \<open>fetch\<close>
  rejects with a \<open>TypeError\<close>, the \<open>catch\<close> block of \<open>parseWithAI\<close> passes it on as it is,
  the classification answers that it is not retryable, and the call ends after a single
  submission. The JavaScript orchestrator wraps the same rejection in a \<open>NetworkError\<close>
  before it is classified, and submits three times.
\<close>

theorem transport_failure_not_retried:
  "(isRetryableError e \<longleftrightarrow>
      kindOf e = NetworkKind \<or> (kindOf e = ApiKind \<and> statusOf e \<in> {Some 429, Some 500, Some 502, Some 503}))
   \<and> kindOf fetchFailure = PlatformKind
   \<and> \<not> isRetryableError fetchFailure
   \<and> fst (tryAttempt envFetchRejects False 0) = Inl fetchFailure
   \<and> parseWithAI envFetchRejects ''fever and cough'' =
       (Resolved None,
        [OnStatus ''Parsing with AI... This may take a few seconds.'' Loading, Fetch,
         OnStatus ''Failed to fetch'' ErrorStatus,
         OnError (Some fetchFailure)])
   \<and> submissions (snd (parseWithAI envFetchRejects ''fever and cough'')) = 1
   \<and> rethrow fetchFailure True = unreachable
   \<and> isRetryableError unreachable
   \<and> effects (snd (parseWithAIJs envFetchRejects ''fever and cough'')) =
       [Fetch, Sleep (Finite 1500), Fetch, Sleep (Finite 2500), Fetch, OnError (Some unreachable)]
   \<and> submissions (snd (parseWithAIJs envFetchRejects ''fever and cough'')) = 3"
proof -
  have cls: "isRetryableError e \<longleftrightarrow>
      kindOf e = NetworkKind \<or> (kindOf e = ApiKind \<and> statusOf e \<in> {Some 429, Some 500, Some 502, Some 503})"
    by (cases e) auto
  have c: "\<not> falsy (apiKey envFetchRejects)"
    by (simp add: envFetchRejects_def envFailing500_def falsy_def)
  have i: "trim ''fever and cough'' \<noteq> []"
    by code_simp
  have h: "(currentImage envFetchRejects \<noteq> None) = False"
    by (simp add: envFetchRejects_def envFailing500_def)
  have b0: "0 < MAX_ATTEMPTS CONFIG_RETRY" and b1: "0 < MAX_ATTEMPTS CONFIG_RETRY - 1"
    and b2: "Suc 0 < MAX_ATTEMPTS CONFIG_RETRY - 1" and b3: "Suc (Suc 0) < MAX_ATTEMPTS CONFIG_RETRY"
    by (simp_all add: MAX_ATTEMPTS_3)
  have n: "\<not> isRetryableError fetchFailure \<or> 0 = MAX_ATTEMPTS CONFIG_RETRY - 1"
    by (simp add: fetchFailure_def)
  have r: "isRetryableError unreachable"
    by (simp add: unreachable_def)
  have l: "\<not> isRetryableError unreachable \<or> Suc (Suc 0) = MAX_ATTEMPTS CONFIG_RETRY - 1"
    by (simp add: MAX_ATTEMPTS_3)
  have ts: "retryLoop envFetchRejects False 0 None =
      (None,
        [OnStatus ''Parsing with AI... This may take a few seconds.'' Loading, Fetch,
         OnStatus ''Failed to fetch'' ErrorStatus,
         OnError (Some fetchFailure)])"
    unfolding retryLoop_surface [OF tryAttempt_fetchRejects b0 n]
    by (simp add: statusMessage_def fetchFailure_def orElse_def)
  have p: "parseWithAI envFetchRejects ''fever and cough'' =
      (Resolved (fst (retryLoop envFetchRejects False 0 None)), snd (retryLoop envFetchRejects False 0 None))"
    using parseWithAI_loop [OF c, of "''fever and cough''"] i unfolding h by blast
  have d: "calculateRetryDelay (arith envFetchRejects) 0 CONFIG_RETRY (random envFetchRejects 0) = Finite 1500"
    "calculateRetryDelay (arith envFetchRejects) (Suc 0) CONFIG_RETRY (random envFetchRejects (Suc 0)) = Finite 2500"
    by (simp_all add: calculateRetryDelay_def CONFIG_RETRY_def envFetchRejects_def envFailing500_def exactArith_def)
  note j0 = retryLoopJs_retry [OF tryAttemptJs_fetchRejects r b1]
  note j1 = retryLoopJs_retry [OF tryAttemptJs_fetchRejects r b2]
  note j2 = retryLoopJs_surface [OF tryAttemptJs_fetchRejects b3 l]
  have js: "effects (snd (retryLoopJs envFetchRejects 0 None)) =
      [Fetch, Sleep (Finite 1500), Fetch, Sleep (Finite 2500), Fetch, OnError (Some unreachable)]"
    unfolding j0 j1 j2 after_def d
    by (simp add: effects_def)
  have sj: "submissions (snd (retryLoopJs envFetchRejects 0 None)) = 3"
    unfolding j0 j1 j2 after_def
    by (simp add: submissions_def)
  have k: "kindOf fetchFailure = PlatformKind" and nr: "\<not> isRetryableError fetchFailure"
    by (simp_all add: fetchFailure_def)
  have st: "submissions
      (snd (Resolved None :: json option promise,
        [OnStatus ''Parsing with AI... This may take a few seconds.'' Loading, Fetch,
         OnStatus ''Failed to fetch'' ErrorStatus,
         OnError (Some fetchFailure)])) = 1"
    by (simp add: submissions_def)
  show ?thesis
    unfolding p ts parseWithAIJs_loop [OF c i] js sj st
    using cls k nr r
    by (simp add: rethrow_fetchFailure tryAttempt_fetchRejects submissions_def)
qed

section \<open>Properties of the voice recognition manager\<close>

lemma activeManager_eq:
  "activeManager =
     \<lparr>recognition = Some \<lparr>continuous = True, interimResults = True, lang = ''zh-TW''\<rparr>,
      isRecording = True, language = ''zh-TW''\<rparr>"
  by (simp add: activeManager_def start_def init_def newManager_def)

lemma activeManagerJs_eq:
  "activeManagerJs =
     \<lparr>recognition = Some \<lparr>continuous = True, interimResults = True, lang = ''zh-TW''\<rparr>,
      isRecording = True, language = ''zh-TW''\<rparr>"
  by (simp add: activeManagerJs_def startJs_def init_def newManager_def)

text \<open>
  C9 (as amended). When the platform fires the end event while the session is Active
  (\<open>isRecording\<close> is set; the handler sits on an existing transport), the end handler of
  either implementation calls the transport's \<open>start()\<close> again and nothing else: no
  callback is called and the manager is unchanged, so the state stays Active, also when
  that \<open>start()\<close> throws. The start event with which the platform answers the restart
  reaches no handler of the TypeScript manager, so that its caller sees nothing of the
  restart; the JavaScript manager relays that event to \<open>onStart\<close>. Neither calls \<open>onEnd\<close>.
\<close>

theorem auto_restart:
  "isRecording m \<and> recognition m \<noteq> None \<longrightarrow>
     onend m throws = (m, [TransportStart]) \<and> isRecording (fst (onend m throws))
     \<and> onendJs m throws = (m, [TransportStart]) \<and> isRecording (fst (onendJs m throws))
     \<and> deliver dispatch m [(EndEvent, throws), (StartEvent, None)] = (m, [TransportStart])
     \<and> deliver dispatchJs m [(EndEvent, throws), (StartEvent, None)] = (m, [TransportStart, CallOnStart])
     \<and> countOnEnd (snd (deliver dispatch m [(EndEvent, throws), (StartEvent, None)])) = 0
     \<and> countOnEnd (snd (deliver dispatchJs m [(EndEvent, throws), (StartEvent, None)])) = 0"
  by (simp add: onend_def onendJs_def onstartJs_def dispatch_def dispatchJs_def countOnEnd_def)

theorem auto_restart_witness:
  "isRecording activeManager \<and> recognition activeManager \<noteq> None
   \<and> onend activeManager None = (activeManager, [TransportStart])
   \<and> onendJs activeManager (Some ''recognition has already started'') = (activeManager, [TransportStart])
   \<and> deliver dispatch activeManager [(EndEvent, None), (StartEvent, None)] = (activeManager, [TransportStart])
   \<and> list_ex isCallback (snd (deliver dispatch activeManager [(EndEvent, None), (StartEvent, None)])) = False"
proof -
  have a: "isRecording activeManager \<and> recognition activeManager \<noteq> None"
    by (simp add: activeManager_eq)
  from a auto_restart [of activeManager None]
    auto_restart [of activeManager "Some ''recognition has already started''"]
  have "onend activeManager None = (activeManager, [TransportStart])
    \<and> onendJs activeManager (Some ''recognition has already started'') = (activeManager, [TransportStart])
    \<and> deliver dispatch activeManager [(EndEvent, None), (StartEvent, None)] = (activeManager, [TransportStart])"
    by blast
  with a show ?thesis
    by simp
qed

text \<open>
  C9 as stated fails of the JavaScript manager: the restart is not invisible to its caller.
  The session is Active; the platform fires the end event, the handler calls \<open>start()\<close>,
  which returns; the platform fires the start event of the restarted transport, and the
  manager calls \<open>onStart\<close>.
\<close>

theorem auto_restart_counterexample:
  "isRecording activeManagerJs \<and> recognition activeManagerJs \<noteq> None
   \<and> deliver dispatchJs activeManagerJs [(EndEvent, None), (StartEvent, None)] =
       (activeManagerJs, [TransportStart, CallOnStart])
   \<and> list_ex isCallback (snd (deliver dispatchJs activeManagerJs [(EndEvent, None), (StartEvent, None)]))"
  by (simp add: activeManagerJs_eq onendJs_def onstartJs_def dispatchJs_def)

text \<open>
  C10 (as amended). \<open>stop()\<close> of either implementation first clears \<open>isRecording\<close> and then,
  if a transport exists, asks it to halt; an exception of the halt changes nothing. The
  end handler that runs afterwards starts nothing. The TypeScript \<open>stop()\<close> itself calls
  \<open>onEnd\<close> as its last action, with or without a transport, and its end handler then calls
  nothing; the JavaScript \<open>stop()\<close> calls no callback, and its end handler then calls
  \<open>onEnd\<close>. In both, \<open>stop()\<close> followed by the platform's end event calls \<open>onEnd\<close> once.
\<close>

theorem explicit_stop:
  "stop m throws =
     (m\<lparr>isRecording := False\<rparr>,
      [SetIsRecording False] @ (if recognition m \<noteq> None then [TransportStop] else []) @ [CallOnEnd])
   \<and> onend (fst (stop m throws)) throws' = (fst (stop m throws), [])
   \<and> countOnEnd (snd (stop m throws) @ snd (onend (fst (stop m throws)) throws')) = 1
   \<and> stopJs m throws =
     (m\<lparr>isRecording := False\<rparr>,
      [SetIsRecording False] @ (if recognition m \<noteq> None then [TransportStop] else []))
   \<and> onendJs (fst (stopJs m throws)) throws' = (fst (stopJs m throws), [CallOnEnd])
   \<and> countOnEnd (snd (stopJs m throws) @ snd (onendJs (fst (stopJs m throws)) throws')) = 1"
  by (simp add: stop_def stopJs_def onend_def onendJs_def countOnEnd_def)

theorem explicit_stop_witness:
  "stop activeManager (Some ''not started'') =
     (activeManager\<lparr>isRecording := False\<rparr>, [SetIsRecording False, TransportStop, CallOnEnd])
   \<and> snd (onend (fst (stop activeManager (Some ''not started''))) None) = []
   \<and> countOnEnd (snd (stop activeManager (Some ''not started''))
        @ snd (onend (fst (stop activeManager (Some ''not started''))) None)) = 1
   \<and> stopJs activeManager (Some ''not started'') =
     (activeManager\<lparr>isRecording := False\<rparr>, [SetIsRecording False, TransportStop])
   \<and> snd (onendJs (fst (stopJs activeManager (Some ''not started''))) None) = [CallOnEnd]
   \<and> countOnEnd (snd (stopJs activeManager (Some ''not started''))
        @ snd (onendJs (fst (stopJs activeManager (Some ''not started''))) None)) = 1"
proof -
  have r: "recognition activeManager \<noteq> None"
    by (simp add: activeManager_eq)
  from r explicit_stop [of activeManager "Some ''not started''" None] show ?thesis
    by (elim conjE) simp
qed

text \<open>
  C10 as stated fails on the time of the notification. With a transport, the TypeScript
  \<open>stop()\<close> calls \<open>onEnd\<close> itself, before any end event of the platform; without a
  transport, the JavaScript \<open>stop()\<close> calls \<open>onEnd\<close> not at all.
\<close>

theorem explicit_stop_counterexample:
  "recognition activeManager \<noteq> None
   \<and> snd (stop activeManager None) = [SetIsRecording False, TransportStop, CallOnEnd]
   \<and> recognition newManager = None
   \<and> snd (stopJs newManager None) = [SetIsRecording False]
   \<and> countOnEnd (snd (stopJs newManager None)) = 0"
  by (simp add: activeManager_eq stop_def stopJs_def newManager_def countOnEnd_def)

end
